theory Spec2Isabelle
  imports Complex_Main
begin

section \<open>The in-memory transaction logs\<close>

text \<open>
  A shallow embedding of \<^verbatim>\<open>MemoryBatchedTransactionLog\<close> and
  \<^verbatim>\<open>MemorySimpleTransactionLog\<close>.

  \<^item> A method is a function from the object's state to a triple: the state after the call,
    the external calls it made (lifecycle hooks, the replay callback, timers), and either
    the message of the \<^verbatim>\<open>Error\<close> it threw (\<open>Inl\<close>) or its return value (\<open>Inr\<close>).
  \<^item> Sequence identifiers are JavaScript numbers; the model takes the integral ones
    (\<open>int\<close>), an optional parameter is an \<open>option\<close>. Timestamps are \<open>real\<close>.
  \<^item> \<^verbatim>\<open>performance.now()\<close> is an input: \<open>append\<close> and \<open>commit\<close> take the one reading
    they make, \<open>replay\<close> takes the sequence of readings it makes.
  \<^item> \<^verbatim>\<open>Commit\<close> and \<^verbatim>\<open>Transaction\<close> objects are never assigned to after their creation, so an
    object is its fields together with its identity \<open>ref\<close>; \<open>allocated\<close> counts the
    objects created so far and gives the next identity. \<^verbatim>\<open>indexOf\<close> compares identities,
    as \<^verbatim>\<open>===\<close> does on objects.
  \<^item> The bodies of the hooks and of the replay callback belong to the caller. They are
    taken to return normally, not to call back into the log and not to alter the records
    handed to them; their invocation is recorded as an effect.
\<close>

subsection \<open>error-messages.ts\<close>

definition INVALID_SEQUENCE_ID_MESSAGE :: string where
  "INVALID_SEQUENCE_ID_MESSAGE = ''Invalid sequence-ID: sequences start with 1.''"

definition LOG_CLOSED_MESSAGE :: string where
  "LOG_CLOSED_MESSAGE = ''Cannot perform operation: transaction-log is closed.''"

definition LOG_ALREADY_OPEN_MESSAGE :: string where
  "LOG_ALREADY_OPEN_MESSAGE = ''Transaction-log is already open.''"

definition LOG_ALREADY_CLOSED_MESSAGE :: string where
  "LOG_ALREADY_CLOSED_MESSAGE = ''Transaction-log is already closed.''"

definition LOG_OPEN_CANNOT_CLEAR_MESSAGE :: string where
  "LOG_OPEN_CANNOT_CLEAR_MESSAGE = ''Transaction-log is open; cannot clear.''"

definition BUFFER_EMPTY_CANNOT_COMMIT_MESSAGE :: string where
  "BUFFER_EMPTY_CANNOT_COMMIT_MESSAGE = ''The transaction buffer is empty; cannot commit.''"

definition INVALID_COMMIT_MESSAGE :: string where
  "INVALID_COMMIT_MESSAGE = ''Invalid commit.''"

subsection \<open>types.ts\<close>

record 'a Transaction =
  ref :: nat
  time :: real
  data :: 'a

record Commit =
  ref :: nat
  time :: real
  transactions :: "int list"

text \<open>
  \<^verbatim>\<open>CommitInfo.transactions\<close> is filled by reading \<^verbatim>\<open>this.#transactions[transactionId - 1]\<close>,
  which is \<^verbatim>\<open>undefined\<close> out of range: an entry is \<open>None\<close> there.
\<close>

record 'a CommitInfo =
  id :: int
  time :: real
  transactions :: "'a Transaction option list"

text \<open>A hook is optional: the field says whether it is set.\<close>

record SimpleTransactionLogCallbacks =
  onopen :: bool
  onclose :: bool
  onclear :: bool
  onappend :: bool

record BatchedTransactionLogCallbacks = SimpleTransactionLogCallbacks +
  oncommit :: bool

datatype 'a effect =
    Hook_onopen
  | Hook_onclose
  | Hook_onclear
  | Hook_onappend 'a
  | Hook_oncommit Commit
  | Callback 'a
  | SetTimeout real

text \<open>\<^verbatim>\<open>hook?.apply(this, args)\<close>: the call is made when the hook is set.\<close>

definition optional_call :: "bool \<Rightarrow> 'a effect \<Rightarrow> 'a effect list" where
  "optional_call present e = (if present then [e] else [])"

subsection \<open>Array primitives\<close>

text \<open>
  \<^verbatim>\<open>Array.prototype.slice(start, end)\<close> on integral arguments: a negative index counts
  from the end, both are clipped to the array, an omitted end is the length.
\<close>

definition slice :: "'a list \<Rightarrow> int \<Rightarrow> int option \<Rightarrow> 'a list" where
  "slice xs start end =
     (let len = int (length xs);
          k = (if start < 0 then max (len + start) 0 else min start len);
          final = (case end of
                     None \<Rightarrow> len
                   | Some e \<Rightarrow> if e < 0 then max (len + e) 0 else min e len)
      in take (nat (final - k)) (drop (nat k) xs))"

text \<open>\<^verbatim>\<open>xs[i]\<close>: \<^verbatim>\<open>undefined\<close> (\<open>None\<close>) out of range.\<close>

definition at_index :: "'a list \<Rightarrow> int \<Rightarrow> 'a option" where
  "at_index xs i = (if 0 \<le> i \<and> i < int (length xs) then Some (xs ! nat i) else None)"

text \<open>\<^verbatim>\<open>commits.indexOf(commit)\<close>: the first position holding the same object, or -1.\<close>

fun indexOf_from :: "Commit list \<Rightarrow> Commit \<Rightarrow> int \<Rightarrow> int" where
  "indexOf_from [] c i = - 1"
| "indexOf_from (x # xs) c i =
     (if Commit.ref x = Commit.ref c then i else indexOf_from xs c (i + 1))"

definition indexOf :: "Commit list \<Rightarrow> Commit \<Rightarrow> int" where
  "indexOf xs c = indexOf_from xs c 0"

text \<open>\<^verbatim>\<open>xs.map(f)\<close> for an \<open>f\<close> that may throw: the first throw ends the call.\<close>

fun map_throwing :: "('a \<Rightarrow> string + 'b) \<Rightarrow> 'a list \<Rightarrow> string + 'b list" where
  "map_throwing f [] = Inr []"
| "map_throwing f (x # xs) =
     (case f x of
        Inl e \<Rightarrow> Inl e
      | Inr y \<Rightarrow> (case map_throwing f xs of Inl e \<Rightarrow> Inl e | Inr ys \<Rightarrow> Inr (y # ys)))"

text \<open>\<^verbatim>\<open>if (finishId)\<close>: an omitted number and 0 are falsy.\<close>

definition truthy :: "int option \<Rightarrow> bool" where
  "truthy n = (case n of None \<Rightarrow> False | Some v \<Rightarrow> v \<noteq> 0)"

subsection \<open>The replay loops\<close>

text \<open>
  The loop of \<open>replay\<close> under \<^verbatim>\<open>simulateTime\<close>, from index \<open>i\<close>; \<open>k\<close> counts the clock
  readings made so far. The timer's function is empty: the loop does not wait for it.
\<close>

function replay_simulated ::
  "'a Transaction list \<Rightarrow> (nat \<Rightarrow> real) \<Rightarrow> nat \<Rightarrow> nat \<Rightarrow> 'a effect list" where
  "replay_simulated txns now k i =
     (if i < length txns then
        (let txn = txns ! i in
         case at_index txns (int i + 1) of
           Some nextTxn \<Rightarrow>
             (let start = now k; finish = now (k + 1) in
              Callback (data txn)
                # SetTimeout (Transaction.time nextTxn - Transaction.time txn - (finish - start))
                # replay_simulated txns now (k + 2) (i + 1))
         | None \<Rightarrow> Callback (data txn) # replay_simulated txns now k (i + 1))
      else [])"
  by pat_completeness auto
termination
  by (relation "measure (\<lambda>(txns, now, k, i). length txns - i)") auto

declare replay_simulated.simps [simp del]

definition replay_loop ::
  "'a Transaction list \<Rightarrow> bool option \<Rightarrow> (nat \<Rightarrow> real) \<Rightarrow> 'a effect list" where
  "replay_loop txns simulateTime now =
     (if simulateTime = Some True then replay_simulated txns now 0 0
      else map (\<lambda>txn. Callback (data txn)) txns)"

subsection \<open>MemorySimpleTransactionLog\<close>

record 'a MemorySimpleTransactionLog =
  transactions :: "'a Transaction list"
  callbacks :: SimpleTransactionLogCallbacks
  "open" :: bool
  allocated :: nat

definition no_simple_callbacks :: SimpleTransactionLogCallbacks where
  "no_simple_callbacks =
     \<lparr>onopen = False, onclose = False, onclear = False, onappend = False\<rparr>"

definition simple_new :: "SimpleTransactionLogCallbacks option \<Rightarrow> 'a MemorySimpleTransactionLog" where
  "simple_new cbs =
     \<lparr>MemorySimpleTransactionLog.transactions = [],
      callbacks = (case cbs of None \<Rightarrow> no_simple_callbacks | Some c \<Rightarrow> c),
      open = False,
      allocated = 0\<rparr>"

definition simple_isOpen ::
  "'a MemorySimpleTransactionLog \<Rightarrow>
   'a MemorySimpleTransactionLog \<times> 'a effect list \<times> (string + bool)" where
  "simple_isOpen s = (s, [], Inr (MemorySimpleTransactionLog.open s))"

definition simple_open ::
  "'a MemorySimpleTransactionLog \<Rightarrow>
   'a MemorySimpleTransactionLog \<times> 'a effect list \<times> (string + unit)" where
  "simple_open s =
     (if MemorySimpleTransactionLog.open s then (s, [], Inl LOG_ALREADY_OPEN_MESSAGE)
      else (s\<lparr>MemorySimpleTransactionLog.open := True\<rparr>,
            optional_call (onopen (MemorySimpleTransactionLog.callbacks s)) Hook_onopen,
            Inr ()))"

definition simple_close ::
  "'a MemorySimpleTransactionLog \<Rightarrow>
   'a MemorySimpleTransactionLog \<times> 'a effect list \<times> (string + unit)" where
  "simple_close s =
     (if \<not> MemorySimpleTransactionLog.open s then (s, [], Inl LOG_ALREADY_CLOSED_MESSAGE)
      else (s\<lparr>MemorySimpleTransactionLog.open := False\<rparr>,
            optional_call (onclose (MemorySimpleTransactionLog.callbacks s)) Hook_onclose,
            Inr ()))"

definition simple_clear ::
  "'a MemorySimpleTransactionLog \<Rightarrow>
   'a MemorySimpleTransactionLog \<times> 'a effect list \<times> (string + unit)" where
  "simple_clear s =
     (if MemorySimpleTransactionLog.open s then (s, [], Inl LOG_OPEN_CANNOT_CLEAR_MESSAGE)
      else (s\<lparr>MemorySimpleTransactionLog.transactions := []\<rparr>,
            optional_call (onclear (MemorySimpleTransactionLog.callbacks s)) Hook_onclear,
            Inr ()))"

definition simple_countTransactions ::
  "'a MemorySimpleTransactionLog \<Rightarrow>
   'a MemorySimpleTransactionLog \<times> 'a effect list \<times> (string + nat)" where
  "simple_countTransactions s =
     (if \<not> MemorySimpleTransactionLog.open s then (s, [], Inl LOG_CLOSED_MESSAGE)
      else (s, [], Inr (length (MemorySimpleTransactionLog.transactions s))))"

definition simple_append ::
  "real \<Rightarrow> 'a \<Rightarrow> 'a MemorySimpleTransactionLog \<Rightarrow>
   'a MemorySimpleTransactionLog \<times> 'a effect list \<times> (string + unit)" where
  "simple_append now d s =
     (if \<not> MemorySimpleTransactionLog.open s then (s, [], Inl LOG_CLOSED_MESSAGE)
      else
        (let txn = \<lparr>Transaction.ref = MemorySimpleTransactionLog.allocated s,
                    Transaction.time = now, data = d\<rparr>
         in (s\<lparr>MemorySimpleTransactionLog.transactions :=
                  MemorySimpleTransactionLog.transactions s @ [txn],
                MemorySimpleTransactionLog.allocated :=
                  MemorySimpleTransactionLog.allocated s + 1\<rparr>,
             optional_call (onappend (MemorySimpleTransactionLog.callbacks s)) (Hook_onappend d),
             Inr ())))"

definition simple_replay ::
  "bool option \<Rightarrow> (nat \<Rightarrow> real) \<Rightarrow> 'a MemorySimpleTransactionLog \<Rightarrow>
   'a MemorySimpleTransactionLog \<times> 'a effect list \<times> (string + unit)" where
  "simple_replay simulateTime now s =
     (if \<not> MemorySimpleTransactionLog.open s then (s, [], Inl LOG_CLOSED_MESSAGE)
      else (s, replay_loop (MemorySimpleTransactionLog.transactions s) simulateTime now, Inr ()))"

definition simple_getSeqRangeTransactions ::
  "int \<Rightarrow> int option \<Rightarrow> 'a MemorySimpleTransactionLog \<Rightarrow>
   'a MemorySimpleTransactionLog \<times> 'a effect list \<times> (string + 'a Transaction list)" where
  "simple_getSeqRangeTransactions startId finishId s =
     (if \<not> MemorySimpleTransactionLog.open s then (s, [], Inl LOG_CLOSED_MESSAGE)
      else if startId < 1 then (s, [], Inl INVALID_SEQUENCE_ID_MESSAGE)
      else if truthy finishId then
        (s, [], Inr (slice (MemorySimpleTransactionLog.transactions s) (startId - 1) finishId))
      else
        (s, [], Inr (slice (MemorySimpleTransactionLog.transactions s) (startId - 1) None)))"

subsection \<open>MemoryBatchedTransactionLog\<close>

record 'a MemoryBatchedTransactionLog =
  commits :: "Commit list"
  transactions :: "'a Transaction list"
  buffer :: "'a Transaction list"
  callbacks :: BatchedTransactionLogCallbacks
  "open" :: bool
  allocated :: nat

definition no_batched_callbacks :: BatchedTransactionLogCallbacks where
  "no_batched_callbacks =
     \<lparr>onopen = False, onclose = False, onclear = False, onappend = False, oncommit = False\<rparr>"

definition batched_new ::
  "BatchedTransactionLogCallbacks option \<Rightarrow> 'a MemoryBatchedTransactionLog" where
  "batched_new cbs =
     \<lparr>commits = [],
      MemoryBatchedTransactionLog.transactions = [],
      buffer = [],
      MemoryBatchedTransactionLog.callbacks =
        (case cbs of None \<Rightarrow> no_batched_callbacks | Some c \<Rightarrow> c),
      MemoryBatchedTransactionLog.open = False,
      MemoryBatchedTransactionLog.allocated = 0\<rparr>"

definition batched_isOpen ::
  "'a MemoryBatchedTransactionLog \<Rightarrow>
   'a MemoryBatchedTransactionLog \<times> 'a effect list \<times> (string + bool)" where
  "batched_isOpen s = (s, [], Inr (MemoryBatchedTransactionLog.open s))"

definition batched_open ::
  "'a MemoryBatchedTransactionLog \<Rightarrow>
   'a MemoryBatchedTransactionLog \<times> 'a effect list \<times> (string + unit)" where
  "batched_open s =
     (if MemoryBatchedTransactionLog.open s then (s, [], Inl LOG_ALREADY_OPEN_MESSAGE)
      else (s\<lparr>MemoryBatchedTransactionLog.open := True\<rparr>,
            optional_call (onopen (MemoryBatchedTransactionLog.callbacks s)) Hook_onopen,
            Inr ()))"

definition batched_close ::
  "'a MemoryBatchedTransactionLog \<Rightarrow>
   'a MemoryBatchedTransactionLog \<times> 'a effect list \<times> (string + unit)" where
  "batched_close s =
     (if \<not> MemoryBatchedTransactionLog.open s then (s, [], Inl LOG_ALREADY_CLOSED_MESSAGE)
      else (s\<lparr>MemoryBatchedTransactionLog.open := False\<rparr>,
            optional_call (onclose (MemoryBatchedTransactionLog.callbacks s)) Hook_onclose,
            Inr ()))"

definition batched_clear ::
  "'a MemoryBatchedTransactionLog \<Rightarrow>
   'a MemoryBatchedTransactionLog \<times> 'a effect list \<times> (string + unit)" where
  "batched_clear s =
     (if MemoryBatchedTransactionLog.open s then (s, [], Inl LOG_OPEN_CANNOT_CLEAR_MESSAGE)
      else (s\<lparr>commits := [],
               MemoryBatchedTransactionLog.transactions := [],
               buffer := []\<rparr>,
            optional_call (onclear (MemoryBatchedTransactionLog.callbacks s)) Hook_onclear,
            Inr ()))"

text \<open>
  \<^verbatim>\<open>this.#buffer.map((_transaction, i) => this.#transactions.length + i + 1)\<close>:
  \<open>enumerate 0\<close> pairs each buffered transaction with its index.
\<close>

definition batched_commit ::
  "real \<Rightarrow> 'a MemoryBatchedTransactionLog \<Rightarrow>
   'a MemoryBatchedTransactionLog \<times> 'a effect list \<times> (string + unit)" where
  "batched_commit now s =
     (if \<not> MemoryBatchedTransactionLog.open s then (s, [], Inl LOG_CLOSED_MESSAGE)
      else if length (buffer s) = 0 then (s, [], Inl BUFFER_EMPTY_CANNOT_COMMIT_MESSAGE)
      else
        (let commitId = int (length (commits s)) + 1;
             transactionIds =
               map (\<lambda>(i, transaction).
                      int (length (MemoryBatchedTransactionLog.transactions s)) + int i + 1)
                   (enumerate 0 (buffer s));
             commit = \<lparr>Commit.ref = MemoryBatchedTransactionLog.allocated s,
                       Commit.time = now,
                       Commit.transactions = transactionIds\<rparr>
         in (s\<lparr>commits := commits s @ [commit],
                MemoryBatchedTransactionLog.transactions :=
                  MemoryBatchedTransactionLog.transactions s @ buffer s,
                buffer := [],
                MemoryBatchedTransactionLog.allocated :=
                  MemoryBatchedTransactionLog.allocated s + 1\<rparr>,
             optional_call (oncommit (MemoryBatchedTransactionLog.callbacks s))
               (Hook_oncommit commit),
             Inr ())))"

definition batched_countCommits ::
  "'a MemoryBatchedTransactionLog \<Rightarrow>
   'a MemoryBatchedTransactionLog \<times> 'a effect list \<times> (string + nat)" where
  "batched_countCommits s =
     (if \<not> MemoryBatchedTransactionLog.open s then (s, [], Inl LOG_CLOSED_MESSAGE)
      else (s, [], Inr (length (commits s))))"

definition batched_countTransactions ::
  "'a MemoryBatchedTransactionLog \<Rightarrow>
   'a MemoryBatchedTransactionLog \<times> 'a effect list \<times> (string + nat)" where
  "batched_countTransactions s =
     (if \<not> MemoryBatchedTransactionLog.open s then (s, [], Inl LOG_CLOSED_MESSAGE)
      else (s, [], Inr (length (MemoryBatchedTransactionLog.transactions s))))"

definition batched_append ::
  "real \<Rightarrow> 'a \<Rightarrow> 'a MemoryBatchedTransactionLog \<Rightarrow>
   'a MemoryBatchedTransactionLog \<times> 'a effect list \<times> (string + unit)" where
  "batched_append now d s =
     (if \<not> MemoryBatchedTransactionLog.open s then (s, [], Inl LOG_CLOSED_MESSAGE)
      else
        (let txn = \<lparr>Transaction.ref = MemoryBatchedTransactionLog.allocated s,
                    Transaction.time = now, data = d\<rparr>
         in (s\<lparr>buffer := buffer s @ [txn],
                MemoryBatchedTransactionLog.allocated :=
                  MemoryBatchedTransactionLog.allocated s + 1\<rparr>,
             optional_call (onappend (MemoryBatchedTransactionLog.callbacks s)) (Hook_onappend d),
             Inr ())))"

definition batched_replay ::
  "bool option \<Rightarrow> (nat \<Rightarrow> real) \<Rightarrow> 'a MemoryBatchedTransactionLog \<Rightarrow>
   'a MemoryBatchedTransactionLog \<times> 'a effect list \<times> (string + unit)" where
  "batched_replay simulateTime now s =
     (if \<not> MemoryBatchedTransactionLog.open s then (s, [], Inl LOG_CLOSED_MESSAGE)
      else (s, replay_loop (MemoryBatchedTransactionLog.transactions s) simulateTime now, Inr ()))"

text \<open>The function mapped over the sliced commits by \<open>getSeqRangeCommits\<close>.\<close>

definition commitInfo :: "'a MemoryBatchedTransactionLog \<Rightarrow> Commit \<Rightarrow> string + 'a CommitInfo" where
  "commitInfo s commit =
     (let commitId = indexOf (commits s) commit + 1
      in if commitId = 0 then Inl INVALID_COMMIT_MESSAGE
         else Inr \<lparr>id = commitId,
                   CommitInfo.time = Commit.time commit,
                   CommitInfo.transactions =
                     map (\<lambda>transactionId.
                            at_index (MemoryBatchedTransactionLog.transactions s) (transactionId - 1))
                         (Commit.transactions commit)\<rparr>)"

definition batched_getSeqRangeCommits ::
  "int \<Rightarrow> int option \<Rightarrow> 'a MemoryBatchedTransactionLog \<Rightarrow>
   'a MemoryBatchedTransactionLog \<times> 'a effect list \<times> (string + 'a CommitInfo list)" where
  "batched_getSeqRangeCommits startId finishId s =
     (if \<not> MemoryBatchedTransactionLog.open s then (s, [], Inl LOG_CLOSED_MESSAGE)
      else if startId < 1 then (s, [], Inl INVALID_SEQUENCE_ID_MESSAGE)
      else if truthy finishId then
        (s, [], map_throwing (commitInfo s) (slice (commits s) (startId - 1) finishId))
      else
        (s, [], map_throwing (commitInfo s) (slice (commits s) (startId - 1) None)))"

definition batched_getSeqRangeTransactions ::
  "int \<Rightarrow> int option \<Rightarrow> 'a MemoryBatchedTransactionLog \<Rightarrow>
   'a MemoryBatchedTransactionLog \<times> 'a effect list \<times> (string + 'a Transaction list)" where
  "batched_getSeqRangeTransactions startId finishId s =
     (if \<not> MemoryBatchedTransactionLog.open s then (s, [], Inl LOG_CLOSED_MESSAGE)
      else if startId < 1 then (s, [], Inl INVALID_SEQUENCE_ID_MESSAGE)
      else if truthy finishId then
        (s, [], Inr (slice (MemoryBatchedTransactionLog.transactions s) (startId - 1) finishId))
      else
        (s, [], Inr (slice (MemoryBatchedTransactionLog.transactions s) (startId - 1) None)))"

subsection \<open>Sequences of calls\<close>

text \<open>
  A call of a method with its arguments and the clock readings it consumes;
  \<open>perform\<close> is the state the call leaves behind, whether it returned or threw.
\<close>

datatype 'a call =
    Call_isOpen
  | Call_open
  | Call_close
  | Call_clear
  | Call_commit real
  | Call_countCommits
  | Call_countTransactions
  | Call_append real 'a
  | Call_replay "bool option" "nat \<Rightarrow> real"
  | Call_getSeqRangeCommits int "int option"
  | Call_getSeqRangeTransactions int "int option"

fun perform :: "'a call \<Rightarrow> 'a MemoryBatchedTransactionLog \<Rightarrow> 'a MemoryBatchedTransactionLog" where
  "perform Call_isOpen s = fst (batched_isOpen s)"
| "perform Call_open s = fst (batched_open s)"
| "perform Call_close s = fst (batched_close s)"
| "perform Call_clear s = fst (batched_clear s)"
| "perform (Call_commit now) s = fst (batched_commit now s)"
| "perform Call_countCommits s = fst (batched_countCommits s)"
| "perform Call_countTransactions s = fst (batched_countTransactions s)"
| "perform (Call_append now d) s = fst (batched_append now d s)"
| "perform (Call_replay simulateTime now) s = fst (batched_replay simulateTime now s)"
| "perform (Call_getSeqRangeCommits startId finishId) s =
     fst (batched_getSeqRangeCommits startId finishId s)"
| "perform (Call_getSeqRangeTransactions startId finishId) s =
     fst (batched_getSeqRangeTransactions startId finishId s)"

text \<open>The states of a batched log: a new log, and every state a call leads to.\<close>

inductive reachable :: "'a MemoryBatchedTransactionLog \<Rightarrow> bool" where
  new: "reachable (batched_new cbs)"
| call: "reachable s \<Longrightarrow> reachable (perform c s)"

text \<open>The payloads handed to the replay callback, in the order of the calls.\<close>

fun visited :: "'a effect list \<Rightarrow> 'a list" where
  "visited [] = []"
| "visited (Callback d # es) = d # visited es"
| "visited (_ # es) = visited es"

subsection \<open>The usage example of the README\<close>

text \<open>
  Open, append \<^verbatim>\<open>"foo"\<close> and \<^verbatim>\<open>"bar"\<close>, commit, then either append \<^verbatim>\<open>"baz"\<close> or close;
  the clock reads 1, 2, 3, 4.
\<close>

definition readme_buffered :: "string MemoryBatchedTransactionLog" where
  "readme_buffered =
     perform (Call_append 2 ''bar'')
       (perform (Call_append 1 ''foo'') (perform Call_open (batched_new None)))"

definition readme_committed :: "string MemoryBatchedTransactionLog" where
  "readme_committed = perform (Call_commit 3) readme_buffered"

definition readme_pending :: "string MemoryBatchedTransactionLog" where
  "readme_pending = perform (Call_append 4 ''baz'') readme_committed"

definition readme_closed :: "string MemoryBatchedTransactionLog" where
  "readme_closed = perform Call_close readme_committed"

definition readme_simple :: "string MemorySimpleTransactionLog" where
  "readme_simple =
     fst (simple_append 2 ''bar''
       (fst (simple_append 1 ''foo'' (fst (simple_open (simple_new None))))))"

definition readme_simple_closed :: "string MemorySimpleTransactionLog" where
  "readme_simple_closed = fst (simple_close readme_simple)"

subsection \<open>The stated properties\<close>

text \<open>
  The property of the stored commits: every commit lists a non-empty run of consecutive
  identifiers, ascending, that starts at 1 or later and ends at the number of committed
  transactions or earlier.
\<close>

definition commit_ids_ok :: "'a MemoryBatchedTransactionLog \<Rightarrow> bool" where
  "commit_ids_ok s =
     list_all (\<lambda>c. let ids = Commit.transactions c
                    in ids \<noteq> [] \<and> ids = [hd ids .. last ids] \<and> 1 \<le> hd ids \<and>
                       last ids \<le> int (length (MemoryBatchedTransactionLog.transactions s)))
              (commits s)"

text \<open>
  The range of a lookup as the specification words it: the entries whose 1-based
  identifier lies between \<open>startId\<close> and \<open>finishId\<close>, both included, or from \<open>startId\<close>
  on when \<open>finishId\<close> is omitted, in the order of their identifiers.
\<close>

definition entries_in_id_range_spec :: "'a list \<Rightarrow> int \<Rightarrow> int option \<Rightarrow> 'a list" where
  "entries_in_id_range_spec xs startId finishId =
     map snd (filter (\<lambda>(i, x). startId \<le> int i \<and>
                               (case finishId of None \<Rightarrow> True | Some f \<Rightarrow> int i \<le> f))
                     (enumerate 1 xs))"

section \<open>Properties\<close>

subsection \<open>The example states\<close>

lemma readme_buffered_eq:
  "readme_buffered =
     \<lparr>commits = [],
      MemoryBatchedTransactionLog.transactions = [],
      buffer = [\<lparr>Transaction.ref = 0, Transaction.time = 1, data = ''foo''\<rparr>,
                \<lparr>Transaction.ref = 1, Transaction.time = 2, data = ''bar''\<rparr>],
      MemoryBatchedTransactionLog.callbacks = no_batched_callbacks,
      MemoryBatchedTransactionLog.open = True,
      MemoryBatchedTransactionLog.allocated = 2\<rparr>"
  by (simp add: readme_buffered_def batched_new_def batched_open_def batched_append_def)

lemma readme_committed_eq:
  "readme_committed =
     \<lparr>commits = [\<lparr>Commit.ref = 2, Commit.time = 3, Commit.transactions = [1, 2]\<rparr>],
      MemoryBatchedTransactionLog.transactions =
        [\<lparr>Transaction.ref = 0, Transaction.time = 1, data = ''foo''\<rparr>,
         \<lparr>Transaction.ref = 1, Transaction.time = 2, data = ''bar''\<rparr>],
      buffer = [],
      MemoryBatchedTransactionLog.callbacks = no_batched_callbacks,
      MemoryBatchedTransactionLog.open = True,
      MemoryBatchedTransactionLog.allocated = 3\<rparr>"
  by (simp add: readme_committed_def readme_buffered_eq batched_commit_def enumerate_eq_zip Let_def)

lemma readme_pending_eq:
  "readme_pending =
     readme_committed\<lparr>buffer := [\<lparr>Transaction.ref = 3, Transaction.time = 4, data = ''baz''\<rparr>],
                      MemoryBatchedTransactionLog.allocated := 4\<rparr>"
  by (simp add: readme_pending_def readme_committed_eq batched_append_def)

lemma readme_committed_reachable: "reachable readme_committed"
  unfolding readme_committed_def readme_buffered_def
  by (intro reachable.intros)

lemma upto_1_1: "[1 .. 1] = [1 :: int]"
  by (simp add: upto.simps)

lemma readme_closed_eq:
  "readme_closed = readme_committed\<lparr>MemoryBatchedTransactionLog.open := False\<rparr>"
  by (simp add: readme_closed_def readme_committed_eq batched_close_def)

lemma readme_simple_eq:
  "readme_simple =
     \<lparr>MemorySimpleTransactionLog.transactions =
        [\<lparr>Transaction.ref = 0, Transaction.time = 1, data = ''foo''\<rparr>,
         \<lparr>Transaction.ref = 1, Transaction.time = 2, data = ''bar''\<rparr>],
      callbacks = no_simple_callbacks,
      open = True,
      allocated = 2\<rparr>"
  by (simp add: readme_simple_def simple_new_def simple_open_def simple_append_def)

lemma readme_simple_closed_eq:
  "readme_simple_closed = readme_simple\<lparr>MemorySimpleTransactionLog.open := False\<rparr>"
  by (simp add: readme_simple_closed_def readme_simple_eq simple_close_def)

subsection \<open>Identifiers handed out by commit\<close>

lemma upto_1_2: "[1 .. 2] = [1, 2 :: int]"
  by (simp add: upto.simps)

lemma enumerate_ids_from:
  "map (\<lambda>(i, t). n + int i + 1) (enumerate k (xs::'b list))
     = [n + int k + 1 .. n + int k + int (length xs)]"
proof (induction xs arbitrary: k)
  case Nil
  show ?case by simp
next
  case (Cons x xs)
  have "[n + int k + 1 .. n + int k + int (length (x # xs))]
          = (n + int k + 1) # [n + int (Suc k) + 1 .. n + int (Suc k) + int (length xs)]"
    by (subst upto_rec1) (simp_all add: add.commute add.left_commute)
  with Cons.IH [of "Suc k"] show ?case by simp
qed

lemma enumerate_ids:
  "map (\<lambda>(i, t). n + int i + 1) (enumerate 0 (xs::'b list)) = [n + 1 .. n + int (length xs)]"
  using enumerate_ids_from [of n 0 xs] by simp

lemma at_index_upto_append:
  "map (\<lambda>tid. at_index (xs @ ys) (tid - 1))
       [int (length xs) + 1 .. int (length xs) + int (length ys)]
     = map Some ys"
proof -
  have "[int (length xs) + 1 .. int (length xs) + int (length ys)]
          = map (\<lambda>(i, t). int (length xs) + int i + 1) (enumerate 0 ys)"
    by (simp add: enumerate_ids)
  also have "map (\<lambda>tid. at_index (xs @ ys) (tid - 1)) \<dots> = map Some ys"
    by (rule nth_equalityI) (auto simp: at_index_def nth_enumerate_eq nth_append nat_int_add)
  finally show ?thesis .
qed

text \<open>
  C1. On an open batched log with a non-empty buffer, \<open>commit\<close> returns; afterwards
  \<open>countCommits\<close> is one more than before, \<open>countTransactions\<close> has grown by the length of
  the buffer, the buffer is empty, and the one commit added lists the identifiers
  from the old transaction count plus one up to the new transaction count, which resolve
  to the buffered transactions in the order they were appended.
\<close>

theorem commit_moves_buffer:
  assumes "MemoryBatchedTransactionLog.open s" and "buffer s \<noteq> []"
  shows "\<exists>s' hooks c.
           batched_commit now s = (s', hooks, Inr ()) \<and>
           batched_countCommits s' = (s', [], Inr (length (commits s) + 1)) \<and>
           batched_countTransactions s'
             = (s', [], Inr (length (MemoryBatchedTransactionLog.transactions s)
                             + length (buffer s))) \<and>
           buffer s' = [] \<and>
           commits s' = commits s @ [c] \<and>
           Commit.transactions c
             = [int (length (MemoryBatchedTransactionLog.transactions s)) + 1 ..
                int (length (MemoryBatchedTransactionLog.transactions s))
                  + int (length (buffer s))] \<and>
           map (\<lambda>tid. at_index (MemoryBatchedTransactionLog.transactions s') (tid - 1))
               (Commit.transactions c)
             = map Some (buffer s)"
  using assms
  by (simp add: batched_commit_def batched_countCommits_def batched_countTransactions_def
      Let_def enumerate_ids at_index_upto_append)

theorem commit_moves_buffer_witness:
  "MemoryBatchedTransactionLog.open readme_buffered \<and> buffer readme_buffered \<noteq> [] \<and>
   (\<exists>s' hooks c.
      batched_commit 3 readme_buffered = (s', hooks, Inr ()) \<and>
      batched_countCommits s' = (s', [], Inr 1) \<and>
      batched_countTransactions s' = (s', [], Inr 2) \<and>
      buffer s' = [] \<and>
      commits s' = [c] \<and>
      Commit.transactions c = [1, 2] \<and>
      map (\<lambda>tid. at_index (MemoryBatchedTransactionLog.transactions s') (tid - 1))
          (Commit.transactions c)
        = [Some \<lparr>Transaction.ref = 0, Transaction.time = 1, data = ''foo''\<rparr>,
           Some \<lparr>Transaction.ref = 1, Transaction.time = 2, data = ''bar''\<rparr>])"
  using commit_moves_buffer [of readme_buffered 3]
  by (simp add: readme_buffered_eq upto_1_2 numeral_2_eq_2)

text \<open>
  C7. On an open batched log whose buffer is empty, \<open>commit\<close> throws the empty-buffer
  error, makes no external call and leaves the whole state as it was.
\<close>

theorem commit_empty_buffer:
  "MemoryBatchedTransactionLog.open s \<Longrightarrow> buffer s = [] \<Longrightarrow>
   batched_commit now s = (s, [], Inl BUFFER_EMPTY_CANNOT_COMMIT_MESSAGE)"
  by (simp add: batched_commit_def)

theorem commit_empty_buffer_witness:
  "MemoryBatchedTransactionLog.open readme_committed \<and> buffer readme_committed = [] \<and>
   batched_commit 4 readme_committed
     = (readme_committed, [], Inl BUFFER_EMPTY_CANNOT_COMMIT_MESSAGE)"
  using commit_empty_buffer [of readme_committed 4]
  by (simp add: readme_committed_eq)

subsection \<open>Slices and positions\<close>

lemma slice_as_map:
  assumes "1 \<le> a"
  shows "slice xs (a - 1) e
           = map (\<lambda>i. xs ! nat (i - 1))
               [a .. (case e of None \<Rightarrow> int (length xs)
                      | Some f \<Rightarrow> if f < 0 then int (length xs) + f else min f (int (length xs)))]"
    (is "?l = map ?g [a .. ?hi]")
proof (rule nth_equalityI)
  show len: "length ?l = length (map ?g [a .. ?hi])"
    using assms by (auto simp: slice_def Let_def split: option.splits)
  fix j assume j: "j < length ?l"
  with len have j': "j < length [a .. ?hi]" by simp
  hence "[a .. ?hi] ! j = a + int j" by (intro nth_upto) simp
  moreover have "?l ! j = xs ! (nat (a - 1) + j)"
    using j assms by (auto simp: slice_def Let_def min_def split: option.splits if_splits)
  moreover have "nat (a + int j - 1) = nat (a - 1) + j" using assms by simp
  ultimately show "?l ! j = map ?g [a .. ?hi] ! j" using j' by simp
qed

lemma indexOf_from_nth:
  "distinct (map Commit.ref cs) \<Longrightarrow> p < length cs \<Longrightarrow> indexOf_from cs (cs ! p) i = i + int p"
proof (induction cs arbitrary: p i)
  case Nil
  then show ?case by simp
next
  case (Cons c cs)
  show ?case
  proof (cases p)
    case 0
    then show ?thesis by simp
  next
    case (Suc q)
    with Cons.prems have "q < length cs" and "Commit.ref c \<noteq> Commit.ref (cs ! q)"
      by auto
    with Cons.IH [of q "i + 1"] Cons.prems(1) Suc show ?thesis by simp
  qed
qed

lemma indexOf_nth:
  "distinct (map Commit.ref cs) \<Longrightarrow> p < length cs \<Longrightarrow> indexOf cs (cs ! p) = int p"
  by (simp add: indexOf_def indexOf_from_nth)

lemma indexOf_from_found: "c \<in> set cs \<Longrightarrow> i \<le> indexOf_from cs c i"
proof (induction cs arbitrary: i)
  case Nil
  then show ?case by simp
next
  case (Cons x cs)
  show ?case
  proof (cases "Commit.ref x = Commit.ref c")
    case True
    then show ?thesis by simp
  next
    case False
    with Cons.prems have "c \<in> set cs" by auto
    from Cons.IH [OF this, of "i + 1"] False show ?thesis by simp
  qed
qed

lemma set_slice: "set (slice xs a e) \<subseteq> set xs"
  unfolding slice_def Let_def
  by (meson set_take_subset set_drop_subset subset_trans)

lemma slice_to_end: "0 \<le> a \<Longrightarrow> slice xs a None = drop (nat a) xs"
  by (auto simp: slice_def Let_def min_def)

lemma slice_past_end: "int (length xs) \<le> a \<Longrightarrow> slice xs a e = []"
  by (auto simp: slice_def Let_def)

lemma slice_clamped: "0 \<le> a \<Longrightarrow> int (length xs) \<le> f \<Longrightarrow> slice xs a (Some f) = slice xs a None"
  by (auto simp: slice_def Let_def)

subsection \<open>Closed logs\<close>

text \<open>
  C6. On a closed log of either variant, each of \<open>append\<close>, \<open>commit\<close>, \<open>countCommits\<close>,
  \<open>countTransactions\<close>, \<open>replay\<close>, \<open>getSeqRangeTransactions\<close> and \<open>getSeqRangeCommits\<close> throws
  the log-closed error, makes no external call and returns the state it was given.
\<close>

theorem closed_log_rejects:
  "(\<not> MemoryBatchedTransactionLog.open s \<longrightarrow>
      batched_append now d s = (s, [], Inl LOG_CLOSED_MESSAGE) \<and>
      batched_commit now s = (s, [], Inl LOG_CLOSED_MESSAGE) \<and>
      batched_countCommits s = (s, [], Inl LOG_CLOSED_MESSAGE) \<and>
      batched_countTransactions s = (s, [], Inl LOG_CLOSED_MESSAGE) \<and>
      batched_replay simulateTime clock s = (s, [], Inl LOG_CLOSED_MESSAGE) \<and>
      batched_getSeqRangeTransactions startId finishId s = (s, [], Inl LOG_CLOSED_MESSAGE) \<and>
      batched_getSeqRangeCommits startId finishId s = (s, [], Inl LOG_CLOSED_MESSAGE)) \<and>
   (\<not> MemorySimpleTransactionLog.open t \<longrightarrow>
      simple_append now d t = (t, [], Inl LOG_CLOSED_MESSAGE) \<and>
      simple_countTransactions t = (t, [], Inl LOG_CLOSED_MESSAGE) \<and>
      simple_replay simulateTime clock t = (t, [], Inl LOG_CLOSED_MESSAGE) \<and>
      simple_getSeqRangeTransactions startId finishId t = (t, [], Inl LOG_CLOSED_MESSAGE))"
  by (simp add: batched_append_def batched_commit_def batched_countCommits_def
      batched_countTransactions_def batched_replay_def batched_getSeqRangeTransactions_def
      batched_getSeqRangeCommits_def simple_append_def simple_countTransactions_def
      simple_replay_def simple_getSeqRangeTransactions_def)

theorem closed_log_rejects_witness:
  "\<not> MemoryBatchedTransactionLog.open readme_closed \<and>
   batched_append 5 ''baz'' readme_closed = (readme_closed, [], Inl LOG_CLOSED_MESSAGE) \<and>
   batched_commit 5 readme_closed = (readme_closed, [], Inl LOG_CLOSED_MESSAGE) \<and>
   batched_countCommits readme_closed = (readme_closed, [], Inl LOG_CLOSED_MESSAGE) \<and>
   batched_countTransactions readme_closed = (readme_closed, [], Inl LOG_CLOSED_MESSAGE) \<and>
   batched_replay (Some True) (\<lambda>k. 6) readme_closed = (readme_closed, [], Inl LOG_CLOSED_MESSAGE) \<and>
   batched_getSeqRangeTransactions 1 (Some 2) readme_closed
     = (readme_closed, [], Inl LOG_CLOSED_MESSAGE) \<and>
   batched_getSeqRangeCommits 1 (Some 2) readme_closed
     = (readme_closed, [], Inl LOG_CLOSED_MESSAGE) \<and>
   \<not> MemorySimpleTransactionLog.open readme_simple_closed \<and>
   simple_append 5 ''baz'' readme_simple_closed
     = (readme_simple_closed, [], Inl LOG_CLOSED_MESSAGE) \<and>
   simple_countTransactions readme_simple_closed
     = (readme_simple_closed, [], Inl LOG_CLOSED_MESSAGE) \<and>
   simple_replay (Some True) (\<lambda>k. 6) readme_simple_closed
     = (readme_simple_closed, [], Inl LOG_CLOSED_MESSAGE) \<and>
   simple_getSeqRangeTransactions 1 (Some 2) readme_simple_closed
     = (readme_simple_closed, [], Inl LOG_CLOSED_MESSAGE)"
  using closed_log_rejects [of readme_closed 5 "''baz''" "Some True" "\<lambda>k. 6" 1 "Some 2"
      readme_simple_closed]
  by (simp add: readme_closed_eq readme_simple_closed_eq)

subsection \<open>Replay\<close>

lemma visited_replay_simulated:
  "visited (replay_simulated txns now k i) = map data (drop i txns)"
proof (induction txns now k i rule: replay_simulated.induct)
  case (1 txns now k i)
  show ?case
  proof (cases "i < length txns")
    case False
    then show ?thesis by (simp add: replay_simulated.simps [of txns now k i])
  next
    case True
    then have d: "drop i txns = txns ! i # drop (i + 1) txns"
      by (simp add: Cons_nth_drop_Suc)
    show ?thesis
    proof (cases "at_index txns (int i + 1)")
      case None
      with True 1(1) [OF True refl None] d show ?thesis
        by (simp add: replay_simulated.simps [of txns now k i])
    next
      case (Some nextTxn)
      with True 1(2) [OF True refl Some refl refl] d show ?thesis
        by (simp add: replay_simulated.simps [of txns now k i] Let_def)
    qed
  qed
qed

lemma visited_map_Callback: "visited (map (\<lambda>txn. Callback (f txn)) txns) = map f txns"
  by (induction txns) simp_all

lemma visited_replay_loop: "visited (replay_loop txns simulateTime now) = map data txns"
  by (simp add: replay_loop_def visited_replay_simulated visited_map_Callback)

text \<open>
  C5. On an open log of either variant \<open>replay\<close> returns, and the payloads it hands to the
  callback are those of the committed transactions, each once, in committed order,
  whatever \<open>simulateTime\<close> and the clock are. The calls it makes do not depend on the
  buffer.
\<close>

theorem replay_visits_committed:
  "(MemoryBatchedTransactionLog.open s \<longrightarrow>
      (\<exists>effects. batched_replay simulateTime now s = (s, effects, Inr ()) \<and>
         visited effects = map data (MemoryBatchedTransactionLog.transactions s)) \<and>
      batched_replay simulateTime now (s\<lparr>buffer := b\<rparr>)
        = (s\<lparr>buffer := b\<rparr>, fst (snd (batched_replay simulateTime now s)), Inr ())) \<and>
   (MemorySimpleTransactionLog.open t \<longrightarrow>
      (\<exists>effects. simple_replay simulateTime now t = (t, effects, Inr ()) \<and>
         visited effects = map data (MemorySimpleTransactionLog.transactions t)))"
  by (simp add: batched_replay_def simple_replay_def visited_replay_loop)

theorem replay_visits_committed_witness:
  "MemoryBatchedTransactionLog.open readme_pending \<and>
   buffer readme_pending \<noteq> [] \<and>
   (\<exists>effects. batched_replay (Some True) real readme_pending = (readme_pending, effects, Inr ()) \<and>
      visited effects = [''foo'', ''bar'']) \<and>
   (\<exists>effects. batched_replay None real readme_pending = (readme_pending, effects, Inr ()) \<and>
      visited effects = [''foo'', ''bar'']) \<and>
   MemorySimpleTransactionLog.open readme_simple \<and>
   (\<exists>effects. simple_replay (Some True) real readme_simple = (readme_simple, effects, Inr ()) \<and>
      visited effects = [''foo'', ''bar''])"
proof -
  have o: "MemoryBatchedTransactionLog.open readme_pending" "buffer readme_pending \<noteq> []"
    "MemorySimpleTransactionLog.open readme_simple"
    "map data (MemoryBatchedTransactionLog.transactions readme_pending) = [''foo'', ''bar'']"
    "map data (MemorySimpleTransactionLog.transactions readme_simple) = [''foo'', ''bar'']"
    by (simp_all add: readme_pending_eq readme_committed_eq readme_simple_eq)
  from replay_visits_committed [of readme_pending "Some True" real "[]" readme_simple]
    replay_visits_committed [of readme_pending None real "[]" readme_simple] o
  show ?thesis by (elim conjE impE) simp_all
qed

text \<open>The calls of a timed replay of the example, the clock reading 0, 1, 2, ...\<close>

lemma replay_simulated_readme:
  "batched_replay (Some True) real readme_committed
     = (readme_committed, [Callback ''foo'', SetTimeout 0, Callback ''bar''], Inr ())"
  by (simp add: batched_replay_def replay_loop_def readme_committed_eq replay_simulated.simps
      at_index_def)

subsection \<open>The invariant of the commits\<close>

lemma perform_cases:
  "perform c s = s
   \<or> (\<exists>b. perform c s = s\<lparr>MemoryBatchedTransactionLog.open := b\<rparr>)
   \<or> (perform c s = s\<lparr>commits := [], MemoryBatchedTransactionLog.transactions := [], buffer := []\<rparr>)
   \<or> (\<exists>now d. perform c s = fst (batched_append now d s) \<and> MemoryBatchedTransactionLog.open s)
   \<or> (\<exists>now. perform c s = fst (batched_commit now s) \<and> MemoryBatchedTransactionLog.open s \<and> buffer s \<noteq> [])"
  by (cases c)
     (auto simp: batched_isOpen_def batched_open_def batched_close_def batched_clear_def
        batched_commit_def batched_countCommits_def batched_countTransactions_def
        batched_append_def batched_replay_def batched_getSeqRangeCommits_def
        batched_getSeqRangeTransactions_def)

lemma upto_hd_last: "lo \<le> hi \<Longrightarrow> [lo..hi] \<noteq> [] \<and> hd [lo..hi] = lo \<and> last [lo..hi] = hi"
proof -
  assume le: "lo \<le> hi"
  then have "hd [lo..hi] = lo" by (simp add: upto_rec1 [of lo hi])
  moreover from le have "last [lo..hi] = hi" by (simp add: upto_rec2 [of lo hi])
  moreover from le have "[lo..hi] \<noteq> []" by simp
  ultimately show ?thesis by simp
qed

lemma upto_of_hd_last: "ids \<noteq> [] \<Longrightarrow> ids = [hd ids .. last ids] \<Longrightarrow> hd ids \<le> last ids"
  by (metis upto_Nil linorder_not_le)

lemma commit_ids_ok_iff:
  "commit_ids_ok s \<longleftrightarrow>
     (\<forall>c \<in> set (commits s). \<exists>lo hi.
        1 \<le> lo \<and> lo \<le> hi \<and> hi \<le> int (length (MemoryBatchedTransactionLog.transactions s)) \<and>
        Commit.transactions c = [lo..hi])"
  (is "?l \<longleftrightarrow> ?r")
proof
  assume ?l
  show ?r
  proof
    fix c assume "c \<in> set (commits s)"
    with \<open>?l\<close> have *: "Commit.transactions c \<noteq> []"
      "Commit.transactions c = [hd (Commit.transactions c) .. last (Commit.transactions c)]"
      "1 \<le> hd (Commit.transactions c)"
      "last (Commit.transactions c) \<le> int (length (MemoryBatchedTransactionLog.transactions s))"
      by (auto simp: commit_ids_ok_def list_all_iff Let_def)
    from upto_of_hd_last [OF *(1,2)] * show "\<exists>lo hi.
        1 \<le> lo \<and> lo \<le> hi \<and> hi \<le> int (length (MemoryBatchedTransactionLog.transactions s)) \<and>
        Commit.transactions c = [lo..hi]" by blast
  qed
next
  assume ?r
  show ?l
    unfolding commit_ids_ok_def list_all_iff Let_def
  proof
    fix c assume "c \<in> set (commits s)"
    with \<open>?r\<close> obtain lo hi where *: "1 \<le> lo" "lo \<le> hi"
      "hi \<le> int (length (MemoryBatchedTransactionLog.transactions s))"
      "Commit.transactions c = [lo..hi]" by blast
    from upto_hd_last [OF *(2)] * show "Commit.transactions c \<noteq> [] \<and>
         Commit.transactions c = [hd (Commit.transactions c)..last (Commit.transactions c)] \<and>
         1 \<le> hd (Commit.transactions c) \<and>
         last (Commit.transactions c) \<le> int (length (MemoryBatchedTransactionLog.transactions s))"
      by simp
  qed
qed

lemma commit_ids_ok_perform: "commit_ids_ok s \<Longrightarrow> commit_ids_ok (perform c s)"
proof -
  assume ok: "commit_ids_ok s"
  from perform_cases [of c s] show ?thesis
  proof (elim disjE exE conjE)
    assume "perform c s = s" with ok show ?thesis by simp
  next
    fix b assume "perform c s = s\<lparr>MemoryBatchedTransactionLog.open := b\<rparr>"
    with ok show ?thesis by (simp add: commit_ids_ok_def)
  next
    assume "perform c s = s\<lparr>commits := [], MemoryBatchedTransactionLog.transactions := [], buffer := []\<rparr>"
    then show ?thesis by (simp add: commit_ids_ok_def)
  next
    fix now d assume "perform c s = fst (batched_append now d s)" "MemoryBatchedTransactionLog.open s"
    with ok show ?thesis by (simp add: commit_ids_ok_def batched_append_def Let_def)
  next
    fix now assume p: "perform c s = fst (batched_commit now s)"
      and o: "MemoryBatchedTransactionLog.open s" and b: "buffer s \<noteq> []"
    let ?n = "int (length (MemoryBatchedTransactionLog.transactions s))"
    let ?ids = "[?n + 1 .. ?n + int (length (buffer s))]"
    from b have "?n + 1 \<le> ?n + int (length (buffer s))" by (cases "buffer s") simp_all
    from upto_hd_last [OF this] have new: "?ids \<noteq> [] \<and> ?ids = [hd ?ids .. last ?ids] \<and> 1 \<le> hd ?ids
      \<and> last ?ids \<le> ?n + int (length (buffer s))" by simp
    from ok have old: "\<forall>c \<in> set (commits s). Commit.transactions c \<noteq> [] \<and>
         Commit.transactions c = [hd (Commit.transactions c)..last (Commit.transactions c)] \<and>
         1 \<le> hd (Commit.transactions c) \<and>
         last (Commit.transactions c) \<le> ?n + int (length (buffer s))"
      by (auto simp: commit_ids_ok_def list_all_iff Let_def)
    from p o b new old show ?thesis
      by (simp add: commit_ids_ok_def batched_commit_def Let_def enumerate_ids list_all_iff)
  qed
qed

lemma reachable_commit_ids_ok: "reachable s \<Longrightarrow> commit_ids_ok s"
  by (induction rule: reachable.induct)
     (simp_all add: commit_ids_ok_def batched_new_def commit_ids_ok_perform [unfolded commit_ids_ok_def])

lemma reachable_refs:
  "reachable s \<Longrightarrow>
     distinct (map Commit.ref (commits s)) \<and>
     (\<forall>c \<in> set (commits s). Commit.ref c < MemoryBatchedTransactionLog.allocated s)"
proof (induction rule: reachable.induct)
  case (new cbs)
  show ?case by (simp add: batched_new_def)
next
  case (call s c)
  from perform_cases [of c s] call.IH show ?case
    by (elim disjE exE conjE) (auto simp: batched_append_def batched_commit_def Let_def)
qed

lemma at_index_Some: "1 \<le> tid \<Longrightarrow> tid \<le> int (length xs) \<Longrightarrow> at_index xs (tid - 1) = Some (xs ! nat (tid - 1))"
  by (simp add: at_index_def)

lemma commit_ids_resolve:
  assumes "commit_ids_ok s" and "cm \<in> set (commits s)" and "tid \<in> set (Commit.transactions cm)"
  shows "1 \<le> tid \<and> tid \<le> int (length (MemoryBatchedTransactionLog.transactions s))"
proof -
  from assms(1,2) obtain lo hi where "1 \<le> lo" "lo \<le> hi"
      "hi \<le> int (length (MemoryBatchedTransactionLog.transactions s))"
      "Commit.transactions cm = [lo..hi]"
    unfolding commit_ids_ok_iff by blast
  with assms(3) show ?thesis by auto
qed

text \<open>
  C2. Every state a batched log can reach has the property \<open>commit_ids_ok\<close>, and every call
  keeps it. The property says that each stored commit lists a run \<open>[lo..hi]\<close> of consecutive
  identifiers with \<open>1 \<le> lo \<le> hi \<le> countTransactions\<close>; under it every identifier a
  commit lists is the position of a committed transaction.
\<close>

theorem commit_ids_invariant:
  "(reachable s \<longrightarrow> commit_ids_ok s) \<and>
   (commit_ids_ok s \<longrightarrow> commit_ids_ok (perform c s)) \<and>
   (commit_ids_ok s \<longleftrightarrow>
      (\<forall>cm \<in> set (commits s). \<exists>lo hi.
         1 \<le> lo \<and> lo \<le> hi \<and>
         hi \<le> int (length (MemoryBatchedTransactionLog.transactions s)) \<and>
         Commit.transactions cm = [lo..hi])) \<and>
   (commit_ids_ok s \<longrightarrow>
      (\<forall>cm \<in> set (commits s). \<forall>tid \<in> set (Commit.transactions cm).
         \<exists>txn. at_index (MemoryBatchedTransactionLog.transactions s) (tid - 1) = Some txn))"
proof (intro conjI impI ballI)
  assume "reachable s"
  then show "commit_ids_ok s" by (rule reachable_commit_ids_ok)
next
  assume "commit_ids_ok s"
  then show "commit_ids_ok (perform c s)" by (rule commit_ids_ok_perform)
next
  show "commit_ids_ok s \<longleftrightarrow>
      (\<forall>cm \<in> set (commits s). \<exists>lo hi.
         1 \<le> lo \<and> lo \<le> hi \<and>
         hi \<le> int (length (MemoryBatchedTransactionLog.transactions s)) \<and>
         Commit.transactions cm = [lo..hi])"
    by (rule commit_ids_ok_iff)
next
  fix cm tid
  assume "commit_ids_ok s" and "cm \<in> set (commits s)" and "tid \<in> set (Commit.transactions cm)"
  then have "1 \<le> tid \<and> tid \<le> int (length (MemoryBatchedTransactionLog.transactions s))"
    by (rule commit_ids_resolve)
  then show "\<exists>txn. at_index (MemoryBatchedTransactionLog.transactions s) (tid - 1) = Some txn"
    by (simp add: at_index_Some)
qed

theorem commit_ids_invariant_witness:
  "reachable readme_committed \<and>
   commit_ids_ok readme_committed \<and>
   commit_ids_ok (perform (Call_append 4 ''baz'') readme_committed) \<and>
   map Commit.transactions (commits readme_committed) = [ [1 .. 2] ] \<and>
   map (\<lambda>tid. at_index (MemoryBatchedTransactionLog.transactions readme_committed) (tid - 1))
       (concat (map Commit.transactions (commits readme_committed)))
     = [Some \<lparr>Transaction.ref = 0, Transaction.time = 1, data = ''foo''\<rparr>,
        Some \<lparr>Transaction.ref = 1, Transaction.time = 2, data = ''bar''\<rparr>]"
  using commit_ids_invariant [of readme_committed "Call_append 4 ''baz''"]
    readme_committed_reachable
  by (simp add: readme_committed_eq upto_1_2 at_index_def)

subsection \<open>Lookup of commits\<close>

lemma map_throwing_map:
  "(\<And>x. x \<in> set xs \<Longrightarrow> f (g x) = Inr (h x)) \<Longrightarrow> map_throwing f (map g xs) = Inr (map h xs)"
  by (induction xs) simp_all

lemma commitInfo_at:
  assumes r: "reachable s" and i: "1 \<le> i" "i \<le> int (length (commits s))"
  shows "commitInfo s (commits s ! nat (i - 1))
           = Inr \<lparr>id = i,
                  CommitInfo.time = Commit.time (commits s ! nat (i - 1)),
                  CommitInfo.transactions =
                    map (\<lambda>tid. Some (MemoryBatchedTransactionLog.transactions s ! nat (tid - 1)))
                        (Commit.transactions (commits s ! nat (i - 1)))\<rparr>"
proof -
  from i have p: "nat (i - 1) < length (commits s)" by simp
  from r have "distinct (map Commit.ref (commits s))" by (simp add: reachable_refs)
  from indexOf_nth [OF this p] i
  have idx: "indexOf (commits s) (commits s ! nat (i - 1)) = i - 1" by simp
  from p have mem: "commits s ! nat (i - 1) \<in> set (commits s)" by simp
  have "map (\<lambda>tid. at_index (MemoryBatchedTransactionLog.transactions s) (tid - 1))
            (Commit.transactions (commits s ! nat (i - 1)))
          = map (\<lambda>tid. Some (MemoryBatchedTransactionLog.transactions s ! nat (tid - 1)))
                (Commit.transactions (commits s ! nat (i - 1)))"
    using commit_ids_resolve [OF reachable_commit_ids_ok [OF r] mem]
    by (intro map_cong refl at_index_Some) auto
  with idx i show ?thesis by (simp add: commitInfo_def Let_def)
qed

text \<open>
  What \<open>getSeqRangeCommits\<close> returns in a reachable open state for any \<open>finishId\<close>, the
  range being delimited as \<^verbatim>\<open>slice\<close> does: a negative \<open>finishId\<close> counts from the end.
\<close>

lemma getSeqRangeCommits_slice:
  assumes "reachable s" and "MemoryBatchedTransactionLog.open s" and "1 \<le> startId"
  shows "batched_getSeqRangeCommits startId finishId s
           = (s, [],
              Inr (map (\<lambda>i. \<lparr>id = i,
                              CommitInfo.time = Commit.time (commits s ! nat (i - 1)),
                              CommitInfo.transactions =
                                map (\<lambda>tid. Some (MemoryBatchedTransactionLog.transactions s
                                                   ! nat (tid - 1)))
                                    (Commit.transactions (commits s ! nat (i - 1)))\<rparr>)
                       [startId ..
                        (case finishId of
                           None \<Rightarrow> int (length (commits s))
                         | Some f \<Rightarrow>
                             if f = 0 then int (length (commits s))
                             else if f < 0 then int (length (commits s)) + f
                             else min f (int (length (commits s))))])) \<and>
         (\<forall>i \<in> set [startId ..
                      (case finishId of
                         None \<Rightarrow> int (length (commits s))
                       | Some f \<Rightarrow>
                           if f = 0 then int (length (commits s))
                           else if f < 0 then int (length (commits s)) + f
                           else min f (int (length (commits s))))].
            i \<le> int (length (commits s)) \<and>
            (\<forall>tid \<in> set (Commit.transactions (commits s ! nat (i - 1))).
               1 \<le> tid \<and> tid \<le> int (length (MemoryBatchedTransactionLog.transactions s))))"
    (is "_ = (s, [], Inr (map ?info [startId .. ?hi])) \<and> ?bounds")
proof
  have hi: "?hi \<le> int (length (commits s))" by (auto split: option.splits)
  have info: "map_throwing (commitInfo s) (map (\<lambda>i. commits s ! nat (i - 1)) [startId .. ?hi])
                = Inr (map ?info [startId .. ?hi])"
  proof (rule map_throwing_map)
    fix i assume "i \<in> set [startId .. ?hi]"
    with hi assms(3) have "1 \<le> i" "i \<le> int (length (commits s))" by auto
    from commitInfo_at [OF assms(1) this] show "commitInfo s (commits s ! nat (i - 1)) = Inr (?info i)" .
  qed
  show "batched_getSeqRangeCommits startId finishId s = (s, [], Inr (map ?info [startId .. ?hi]))"
  proof (cases "truthy finishId")
    case True
    then obtain f where f: "finishId = Some f" "f \<noteq> 0"
      by (auto simp: truthy_def split: option.splits)
    with True assms(2,3) info slice_as_map [OF assms(3), of "commits s" finishId]
    show ?thesis by (simp add: batched_getSeqRangeCommits_def)
  next
    case False
    then have "finishId = None \<or> finishId = Some 0"
      by (auto simp: truthy_def split: option.splits)
    with False assms(2,3) info slice_as_map [OF assms(3), of "commits s" None]
    show ?thesis by (auto simp: batched_getSeqRangeCommits_def)
  qed
  show ?bounds
  proof (intro ballI conjI)
    fix i assume i: "i \<in> set [startId .. ?hi]"
    with hi show "i \<le> int (length (commits s))" by auto
    fix tid assume tid: "tid \<in> set (Commit.transactions (commits s ! nat (i - 1)))"
    from i hi assms(3) have "commits s ! nat (i - 1) \<in> set (commits s)" by auto
    from commit_ids_resolve [OF reachable_commit_ids_ok [OF assms(1)] this tid]
    show "1 \<le> tid" and "tid \<le> int (length (MemoryBatchedTransactionLog.transactions s))"
      by simp_all
  qed
qed




lemma commitInfo_found:
  "c \<in> set (commits s) \<Longrightarrow> \<exists>info. commitInfo s c = Inr info"
  using indexOf_from_found [of c "commits s" 0]
  by (simp add: commitInfo_def indexOf_def Let_def)

lemma map_throwing_all_Inr:
  "(\<And>x. x \<in> set xs \<Longrightarrow> \<exists>y. f x = Inr y) \<Longrightarrow> \<exists>ys. map_throwing f xs = Inr ys"
proof (induction xs)
  case Nil
  show ?case by simp
next
  case (Cons x xs)
  from Cons.prems [of x] obtain y where "f x = Inr y" by auto
  moreover from Cons.IH Cons.prems obtain ys where "map_throwing f xs = Inr ys" by auto
  ultimately show ?case by simp
qed

text \<open>
  C9. \<open>getSeqRangeCommits\<close> never throws the invalid-commit error, in any state and for any
  arguments: \<open>indexOf\<close> finds every commit taken from a slice of the commits. On an open
  log with \<open>startId\<close> at least 1 it returns a list.
\<close>

theorem getSeqRangeCommits_never_invalid_commit:
  "snd (snd (batched_getSeqRangeCommits startId finishId s)) \<noteq> Inl INVALID_COMMIT_MESSAGE \<and>
   (MemoryBatchedTransactionLog.open s \<and> 1 \<le> startId \<longrightarrow>
      (\<exists>infos. batched_getSeqRangeCommits startId finishId s = (s, [], Inr infos)))"
proof -
  have *: "\<exists>infos. map_throwing (commitInfo s) (slice (commits s) a e) = Inr infos" for a e
    using set_slice [of "commits s" a e]
    by (intro map_throwing_all_Inr commitInfo_found) auto
  from * [of "startId - 1" finishId] * [of "startId - 1" None]
  show ?thesis
    by (auto simp: batched_getSeqRangeCommits_def INVALID_COMMIT_MESSAGE_def
        LOG_CLOSED_MESSAGE_def INVALID_SEQUENCE_ID_MESSAGE_def)
qed

theorem getSeqRangeCommits_never_invalid_commit_witness:
  "MemoryBatchedTransactionLog.open readme_committed \<and>
   snd (snd (batched_getSeqRangeCommits 1 (Some 5) readme_committed)) \<noteq> Inl INVALID_COMMIT_MESSAGE \<and>
   (\<exists>infos. batched_getSeqRangeCommits 1 (Some 5) readme_committed
              = (readme_committed, [], Inr infos))"
  using getSeqRangeCommits_never_invalid_commit [of 1 "Some 5" readme_committed]
  by (simp add: readme_committed_eq)

text \<open>
  C10. With \<open>finishId\<close> equal to 0 the lookups of both variants do what they do with
  \<open>finishId\<close> omitted. On an open log with \<open>startId\<close> at least 1 that is every entry from
  position \<open>startId\<close> to the end: \<open>getSeqRangeTransactions\<close> returns the committed
  transactions from that position on, and \<open>getSeqRangeCommits\<close>, in a reachable state,
  returns the record of every commit from identifier \<open>startId\<close> to the last one, each with
  its identifier, its time and its resolved transactions.
\<close>

theorem finishId_zero_as_omitted:
  "batched_getSeqRangeTransactions startId (Some 0) s
     = batched_getSeqRangeTransactions startId None s \<and>
   batched_getSeqRangeCommits startId (Some 0) s = batched_getSeqRangeCommits startId None s \<and>
   simple_getSeqRangeTransactions startId (Some 0) t
     = simple_getSeqRangeTransactions startId None t \<and>
   (MemoryBatchedTransactionLog.open s \<and> 1 \<le> startId \<longrightarrow>
      batched_getSeqRangeTransactions startId (Some 0) s
        = (s, [], Inr (drop (nat (startId - 1)) (MemoryBatchedTransactionLog.transactions s)))) \<and>
   (reachable s \<and> MemoryBatchedTransactionLog.open s \<and> 1 \<le> startId \<longrightarrow>
      batched_getSeqRangeCommits startId (Some 0) s
        = (s, [],
           Inr (map (\<lambda>i. \<lparr>id = i,
                           CommitInfo.time = Commit.time (commits s ! nat (i - 1)),
                           CommitInfo.transactions =
                             map (\<lambda>tid. Some (MemoryBatchedTransactionLog.transactions s
                                                ! nat (tid - 1)))
                                 (Commit.transactions (commits s ! nat (i - 1)))\<rparr>)
                    [startId .. int (length (commits s))])) \<and>
      map (\<lambda>i. commits s ! nat (i - 1)) [startId .. int (length (commits s))]
        = drop (nat (startId - 1)) (commits s)) \<and>
   (MemorySimpleTransactionLog.open t \<and> 1 \<le> startId \<longrightarrow>
      simple_getSeqRangeTransactions startId (Some 0) t
        = (t, [], Inr (drop (nat (startId - 1)) (MemorySimpleTransactionLog.transactions t))))"
proof (intro conjI impI)
  show "batched_getSeqRangeTransactions startId (Some 0) s
     = batched_getSeqRangeTransactions startId None s"
    by (simp add: batched_getSeqRangeTransactions_def truthy_def)
  show "batched_getSeqRangeCommits startId (Some 0) s = batched_getSeqRangeCommits startId None s"
    by (simp add: batched_getSeqRangeCommits_def truthy_def)
  show "simple_getSeqRangeTransactions startId (Some 0) t
     = simple_getSeqRangeTransactions startId None t"
    by (simp add: simple_getSeqRangeTransactions_def truthy_def)
next
  assume "MemoryBatchedTransactionLog.open s \<and> 1 \<le> startId"
  then show "batched_getSeqRangeTransactions startId (Some 0) s
        = (s, [], Inr (drop (nat (startId - 1)) (MemoryBatchedTransactionLog.transactions s)))"
    by (simp add: batched_getSeqRangeTransactions_def truthy_def slice_to_end)
next
  assume "MemorySimpleTransactionLog.open t \<and> 1 \<le> startId"
  then show "simple_getSeqRangeTransactions startId (Some 0) t
        = (t, [], Inr (drop (nat (startId - 1)) (MemorySimpleTransactionLog.transactions t)))"
    by (simp add: simple_getSeqRangeTransactions_def truthy_def slice_to_end)
next
  assume a: "reachable s \<and> MemoryBatchedTransactionLog.open s \<and> 1 \<le> startId"
  then have r: "reachable s" and o: "MemoryBatchedTransactionLog.open s" and st: "1 \<le> startId"
    by simp_all
  from getSeqRangeCommits_slice [OF r o st, of "Some 0", THEN conjunct1]
  show "batched_getSeqRangeCommits startId (Some 0) s
        = (s, [],
           Inr (map (\<lambda>i. \<lparr>id = i,
                           CommitInfo.time = Commit.time (commits s ! nat (i - 1)),
                           CommitInfo.transactions =
                             map (\<lambda>tid. Some (MemoryBatchedTransactionLog.transactions s
                                                ! nat (tid - 1)))
                                 (Commit.transactions (commits s ! nat (i - 1)))\<rparr>)
                    [startId .. int (length (commits s))]))"
    by simp
  from st slice_as_map [OF st, of "commits s" None] slice_to_end [of "startId - 1" "commits s"]
  show "map (\<lambda>i. commits s ! nat (i - 1)) [startId .. int (length (commits s))]
        = drop (nat (startId - 1)) (commits s)"
    by simp
qed

theorem finishId_zero_as_omitted_witness:
  "reachable readme_committed \<and>
   MemoryBatchedTransactionLog.open readme_committed \<and>
   MemorySimpleTransactionLog.open readme_simple \<and>
   batched_getSeqRangeTransactions 2 (Some 0) readme_committed
     = batched_getSeqRangeTransactions 2 None readme_committed \<and>
   batched_getSeqRangeTransactions 2 (Some 0) readme_committed
     = (readme_committed, [],
        Inr [\<lparr>Transaction.ref = 1, Transaction.time = 2, data = ''bar''\<rparr>]) \<and>
   batched_getSeqRangeCommits 1 (Some 0) readme_committed
     = batched_getSeqRangeCommits 1 None readme_committed \<and>
   batched_getSeqRangeCommits 1 (Some 0) readme_committed
     = (readme_committed, [],
        Inr [\<lparr>id = 1, CommitInfo.time = 3,
              CommitInfo.transactions =
                [Some \<lparr>Transaction.ref = 0, Transaction.time = 1, data = ''foo''\<rparr>,
                 Some \<lparr>Transaction.ref = 1, Transaction.time = 2, data = ''bar''\<rparr>]\<rparr>]) \<and>
   simple_getSeqRangeTransactions 2 (Some 0) readme_simple
     = simple_getSeqRangeTransactions 2 None readme_simple \<and>
   simple_getSeqRangeTransactions 2 (Some 0) readme_simple
     = (readme_simple, [],
        Inr [\<lparr>Transaction.ref = 1, Transaction.time = 2, data = ''bar''\<rparr>])"
proof -
  have ob: "MemoryBatchedTransactionLog.open readme_committed"
    and os: "MemorySimpleTransactionLog.open readme_simple"
    by (simp_all add: readme_committed_eq readme_simple_eq)
  note two = finishId_zero_as_omitted [of 2 readme_committed readme_simple]
  note one = finishId_zero_as_omitted [of 1 readme_committed readme_simple]
  have 1: "batched_getSeqRangeTransactions 2 (Some 0) readme_committed
     = batched_getSeqRangeTransactions 2 None readme_committed"
    by (rule two [THEN conjunct1])
  have "batched_getSeqRangeTransactions 2 (Some 0) readme_committed
     = (readme_committed, [],
        Inr (drop (nat (2 - 1)) (MemoryBatchedTransactionLog.transactions readme_committed)))"
    by (rule two [THEN conjunct2, THEN conjunct2, THEN conjunct2, THEN conjunct1, THEN mp])
       (simp add: ob)
  then have 2: "batched_getSeqRangeTransactions 2 (Some 0) readme_committed
     = (readme_committed, [],
        Inr [\<lparr>Transaction.ref = 1, Transaction.time = 2, data = ''bar''\<rparr>])"
    by (simp add: readme_committed_eq)
  have 3: "batched_getSeqRangeCommits 1 (Some 0) readme_committed
     = batched_getSeqRangeCommits 1 None readme_committed"
    by (rule one [THEN conjunct2, THEN conjunct1])
  have "batched_getSeqRangeCommits 1 (Some 0) readme_committed
        = (readme_committed, [],
           Inr (map (\<lambda>i. \<lparr>id = i,
                           CommitInfo.time = Commit.time (commits readme_committed ! nat (i - 1)),
                           CommitInfo.transactions =
                             map (\<lambda>tid. Some (MemoryBatchedTransactionLog.transactions
                                                  readme_committed ! nat (tid - 1)))
                                 (Commit.transactions (commits readme_committed ! nat (i - 1)))\<rparr>)
                    [1 .. int (length (commits readme_committed))]))"
    by (rule one [THEN conjunct2, THEN conjunct2, THEN conjunct2, THEN conjunct2, THEN conjunct1,
          THEN mp, THEN conjunct1])
       (simp add: ob readme_committed_reachable)
  then have 4: "batched_getSeqRangeCommits 1 (Some 0) readme_committed
     = (readme_committed, [],
        Inr [\<lparr>id = 1, CommitInfo.time = 3,
              CommitInfo.transactions =
                [Some \<lparr>Transaction.ref = 0, Transaction.time = 1, data = ''foo''\<rparr>,
                 Some \<lparr>Transaction.ref = 1, Transaction.time = 2, data = ''bar''\<rparr>]\<rparr>])"
    by (simp add: readme_committed_eq upto_1_1)
  have 5: "simple_getSeqRangeTransactions 2 (Some 0) readme_simple
     = simple_getSeqRangeTransactions 2 None readme_simple"
    by (rule two [THEN conjunct2, THEN conjunct2, THEN conjunct1])
  have "simple_getSeqRangeTransactions 2 (Some 0) readme_simple
     = (readme_simple, [],
        Inr (drop (nat (2 - 1)) (MemorySimpleTransactionLog.transactions readme_simple)))"
    by (rule two [THEN conjunct2, THEN conjunct2, THEN conjunct2, THEN conjunct2, THEN conjunct2,
          THEN mp])
       (simp add: os)
  then have 6: "simple_getSeqRangeTransactions 2 (Some 0) readme_simple
     = (readme_simple, [],
        Inr [\<lparr>Transaction.ref = 1, Transaction.time = 2, data = ''bar''\<rparr>])"
    by (simp add: readme_simple_eq)
  from readme_committed_reachable ob os 1 2 3 4 5 6 show ?thesis
    by - (intro conjI, assumption+)
qed

subsection \<open>Lookup of transactions\<close>

lemma filter_enumerate_from:
  "map snd (filter (\<lambda>(i, x). lo \<le> i) (enumerate n xs)) = drop (lo - n) xs"
proof (induction xs arbitrary: n)
  case Nil
  show ?case by simp
next
  case (Cons x xs)
  show ?case
  proof (cases "lo \<le> n")
    case True
    with Cons.IH [of "Suc n"] show ?thesis by simp
  next
    case False
    then have "lo - n = Suc (lo - Suc n)" by simp
    with False Cons.IH [of "Suc n"] show ?thesis by simp
  qed
qed

lemma filter_enumerate_between:
  "map snd (filter (\<lambda>(i, x). lo \<le> i \<and> i < hi) (enumerate n xs))
     = take (hi - max lo n) (drop (lo - n) xs)"
proof (induction xs arbitrary: n)
  case Nil
  show ?case by simp
next
  case (Cons x xs)
  show ?case
  proof (cases "lo \<le> n")
    case True
    note lo = this
    show ?thesis
    proof (cases "n < hi")
      case True
      then have "hi - n = Suc (hi - Suc n)" by simp
      with lo True Cons.IH [of "Suc n"] show ?thesis by (simp add: max_def)
    next
      case False
      with lo Cons.IH [of "Suc n"] show ?thesis by (simp add: max_def)
    qed
  next
    case False
    then have "lo - n = Suc (lo - Suc n)" and "max lo (Suc n) = lo" and "max lo n = lo"
      by simp_all
    with False Cons.IH [of "Suc n"] show ?thesis by simp
  qed
qed

lemma entries_in_id_range_spec_None:
  assumes "1 \<le> a"
  shows "entries_in_id_range_spec xs a None = drop (nat (a - 1)) xs"
proof -
  have "(\<lambda>(i, x::'a). a \<le> int i \<and> True) = (\<lambda>(i, x). nat a \<le> i)"
    by (auto simp: fun_eq_iff)
  with filter_enumerate_from [of "nat a" 1 xs] assms show ?thesis
    by (simp add: entries_in_id_range_spec_def nat_diff_distrib)
qed

lemma entries_in_id_range_spec_Some:
  assumes "1 \<le> a"
  shows "entries_in_id_range_spec xs a (Some f) = take (nat (f + 1 - a)) (drop (nat (a - 1)) xs)"
proof (cases "0 \<le> f")
  case True
  then have "(\<lambda>(i, x::'a). a \<le> int i \<and> int i \<le> f) = (\<lambda>(i, x). nat a \<le> i \<and> i < nat f + 1)"
    by (auto simp: fun_eq_iff)
  moreover from assms True have "nat f + 1 - max (nat a) 1 = nat (f + 1 - a)"
    by arith
  ultimately show ?thesis
    using filter_enumerate_between [of "nat a" "nat f + 1" 1 xs] assms
    by (simp add: entries_in_id_range_spec_def nat_diff_distrib)
next
  case False
  then have "(\<lambda>(i, x::'a). a \<le> int i \<and> int i \<le> f) = (\<lambda>(i, x). False)"
    by (auto simp: fun_eq_iff)
  with False assms show ?thesis by (simp add: entries_in_id_range_spec_def)
qed

lemma slice_is_id_range:
  assumes "1 \<le> a" and "case e of None \<Rightarrow> True | Some f \<Rightarrow> 1 \<le> f"
  shows "slice xs (a - 1) e = entries_in_id_range_spec xs a e"
proof (cases e)
  case None
  with assms(1) show ?thesis by (simp add: slice_to_end entries_in_id_range_spec_None)
next
  case (Some f)
  with assms(2) have f: "1 \<le> f" by simp
  have eq: "f - (a - 1) = f + 1 - a" by simp
  show ?thesis
  proof (cases "a - 1 < int (length xs)")
    case False
    with assms(1) f Some show ?thesis
      by (simp add: slice_def Let_def entries_in_id_range_spec_Some)
  next
    case True
    note a = this
    show ?thesis
    proof (cases "f \<le> int (length xs)")
      case True
      with a assms(1) f Some show ?thesis
        by (simp add: slice_def Let_def entries_in_id_range_spec_Some min_def) (simp only: eq)
    next
      case False
      with a assms(1) f Some show ?thesis
        by (simp add: slice_def Let_def entries_in_id_range_spec_Some min_def)
    qed
  qed
qed

lemma slice_range:
  assumes "1 \<le> startId" and "case finishId of None \<Rightarrow> True | Some f \<Rightarrow> 1 \<le> f"
  shows "(truthy finishId \<longrightarrow>
            slice xs (startId - 1) finishId = entries_in_id_range_spec xs startId finishId) \<and>
         (\<not> truthy finishId \<longrightarrow>
            slice xs (startId - 1) None = entries_in_id_range_spec xs startId finishId)"
  using assms slice_is_id_range [of startId finishId xs] slice_is_id_range [of startId None xs]
  by (cases finishId) (simp_all add: truthy_def)

lemma slice_omitted:
  "1 \<le> startId \<Longrightarrow> slice xs (startId - 1) None = entries_in_id_range_spec xs startId None"
  using slice_is_id_range [of startId None xs] by simp

text \<open>
  C4, as amended. On an open log of either variant \<open>getSeqRangeTransactions\<close> throws the
  invalid-sequence-identifier error when \<open>startId\<close> is below 1. Otherwise, when
  \<open>finishId\<close> is omitted or at least 1, it returns the committed transactions whose
  identifier lies in the range, in order; a \<open>finishId\<close> of 0 is taken as omitted; a
  \<open>finishId\<close> at or past the number of transactions gives what the omitted one gives; a
  \<open>startId\<close> past the number of transactions gives the empty list.
\<close>

theorem getSeqRangeTransactions_id_range:
  "(MemoryBatchedTransactionLog.open s \<longrightarrow>
      (startId < 1 \<longrightarrow>
         batched_getSeqRangeTransactions startId finishId s
           = (s, [], Inl INVALID_SEQUENCE_ID_MESSAGE)) \<and>
      (1 \<le> startId \<and> (case finishId of None \<Rightarrow> True | Some f \<Rightarrow> 1 \<le> f) \<longrightarrow>
         batched_getSeqRangeTransactions startId finishId s
           = (s, [], Inr (entries_in_id_range_spec (MemoryBatchedTransactionLog.transactions s)
                            startId finishId))) \<and>
      (1 \<le> startId \<longrightarrow>
         batched_getSeqRangeTransactions startId (Some 0) s
           = (s, [], Inr (entries_in_id_range_spec (MemoryBatchedTransactionLog.transactions s)
                            startId None))) \<and>
      (1 \<le> startId \<and> int (length (MemoryBatchedTransactionLog.transactions s)) \<le> f \<longrightarrow>
         batched_getSeqRangeTransactions startId (Some f) s
           = batched_getSeqRangeTransactions startId None s) \<and>
      (int (length (MemoryBatchedTransactionLog.transactions s)) < startId \<longrightarrow>
         batched_getSeqRangeTransactions startId finishId s = (s, [], Inr []))) \<and>
   (MemorySimpleTransactionLog.open t \<longrightarrow>
      (startId < 1 \<longrightarrow>
         simple_getSeqRangeTransactions startId finishId t
           = (t, [], Inl INVALID_SEQUENCE_ID_MESSAGE)) \<and>
      (1 \<le> startId \<and> (case finishId of None \<Rightarrow> True | Some f \<Rightarrow> 1 \<le> f) \<longrightarrow>
         simple_getSeqRangeTransactions startId finishId t
           = (t, [], Inr (entries_in_id_range_spec (MemorySimpleTransactionLog.transactions t)
                            startId finishId))) \<and>
      (1 \<le> startId \<longrightarrow>
         simple_getSeqRangeTransactions startId (Some 0) t
           = (t, [], Inr (entries_in_id_range_spec (MemorySimpleTransactionLog.transactions t)
                            startId None))) \<and>
      (1 \<le> startId \<and> int (length (MemorySimpleTransactionLog.transactions t)) \<le> f \<longrightarrow>
         simple_getSeqRangeTransactions startId (Some f) t
           = simple_getSeqRangeTransactions startId None t) \<and>
      (int (length (MemorySimpleTransactionLog.transactions t)) < startId \<longrightarrow>
         simple_getSeqRangeTransactions startId finishId t = (t, [], Inr [])))"
proof -
  have b: "MemoryBatchedTransactionLog.open s \<Longrightarrow> \<not> startId < 1 \<Longrightarrow>
      batched_getSeqRangeTransactions startId e s
        = (s, [], Inr (if truthy e then slice (MemoryBatchedTransactionLog.transactions s) (startId - 1) e
                       else slice (MemoryBatchedTransactionLog.transactions s) (startId - 1) None))" for e
    by (simp add: batched_getSeqRangeTransactions_def)
  have sm: "MemorySimpleTransactionLog.open t \<Longrightarrow> \<not> startId < 1 \<Longrightarrow>
      simple_getSeqRangeTransactions startId e t
        = (t, [], Inr (if truthy e then slice (MemorySimpleTransactionLog.transactions t) (startId - 1) e
                       else slice (MemorySimpleTransactionLog.transactions t) (startId - 1) None))" for e
    by (simp add: simple_getSeqRangeTransactions_def)
  show ?thesis
  proof (intro conjI impI)
    assume "MemoryBatchedTransactionLog.open s" "startId < 1"
    then show "batched_getSeqRangeTransactions startId finishId s
           = (s, [], Inl INVALID_SEQUENCE_ID_MESSAGE)"
      by (simp add: batched_getSeqRangeTransactions_def)
  next
    assume "MemorySimpleTransactionLog.open t" "startId < 1"
    then show "simple_getSeqRangeTransactions startId finishId t
           = (t, [], Inl INVALID_SEQUENCE_ID_MESSAGE)"
      by (simp add: simple_getSeqRangeTransactions_def)
  next
    assume "MemoryBatchedTransactionLog.open s"
      "1 \<le> startId \<and> (case finishId of None \<Rightarrow> True | Some f \<Rightarrow> 1 \<le> f)"
    then show "batched_getSeqRangeTransactions startId finishId s
           = (s, [], Inr (entries_in_id_range_spec (MemoryBatchedTransactionLog.transactions s)
                            startId finishId))"
      using slice_range [of startId finishId "MemoryBatchedTransactionLog.transactions s"] by (simp add: b)
  next
    assume "MemorySimpleTransactionLog.open t"
      "1 \<le> startId \<and> (case finishId of None \<Rightarrow> True | Some f \<Rightarrow> 1 \<le> f)"
    then show "simple_getSeqRangeTransactions startId finishId t
           = (t, [], Inr (entries_in_id_range_spec (MemorySimpleTransactionLog.transactions t)
                            startId finishId))"
      using slice_range [of startId finishId "MemorySimpleTransactionLog.transactions t"] by (simp add: sm)
  next
    assume "MemoryBatchedTransactionLog.open s" "1 \<le> startId"
    then show "batched_getSeqRangeTransactions startId (Some 0) s
           = (s, [], Inr (entries_in_id_range_spec (MemoryBatchedTransactionLog.transactions s)
                            startId None))"
      by (simp add: b truthy_def slice_omitted)
  next
    assume "MemorySimpleTransactionLog.open t" "1 \<le> startId"
    then show "simple_getSeqRangeTransactions startId (Some 0) t
           = (t, [], Inr (entries_in_id_range_spec (MemorySimpleTransactionLog.transactions t)
                            startId None))"
      by (simp add: sm truthy_def slice_omitted)
  next
    assume "MemoryBatchedTransactionLog.open s"
      "1 \<le> startId \<and> int (length (MemoryBatchedTransactionLog.transactions s)) \<le> f"
    then show "batched_getSeqRangeTransactions startId (Some f) s
           = batched_getSeqRangeTransactions startId None s"
      by (simp add: b truthy_def slice_clamped)
  next
    assume "MemorySimpleTransactionLog.open t"
      "1 \<le> startId \<and> int (length (MemorySimpleTransactionLog.transactions t)) \<le> f"
    then show "simple_getSeqRangeTransactions startId (Some f) t
           = simple_getSeqRangeTransactions startId None t"
      by (simp add: sm truthy_def slice_clamped)
  next
    assume "MemoryBatchedTransactionLog.open s"
      "int (length (MemoryBatchedTransactionLog.transactions s)) < startId"
    then show "batched_getSeqRangeTransactions startId finishId s = (s, [], Inr [])"
      by (simp add: b slice_past_end)
  next
    assume "MemorySimpleTransactionLog.open t"
      "int (length (MemorySimpleTransactionLog.transactions t)) < startId"
    then show "simple_getSeqRangeTransactions startId finishId t = (t, [], Inr [])"
      by (simp add: sm slice_past_end)
  qed
qed

theorem getSeqRangeTransactions_id_range_witness:
  "MemoryBatchedTransactionLog.open readme_committed \<and>
   MemorySimpleTransactionLog.open readme_simple \<and>
   batched_getSeqRangeTransactions 0 (Some 2) readme_committed
     = (readme_committed, [], Inl INVALID_SEQUENCE_ID_MESSAGE) \<and>
   batched_getSeqRangeTransactions 2 (Some 5) readme_committed
     = (readme_committed, [],
        Inr (entries_in_id_range_spec (MemoryBatchedTransactionLog.transactions readme_committed)
               2 (Some 5))) \<and>
   entries_in_id_range_spec (MemoryBatchedTransactionLog.transactions readme_committed) 2 (Some 5)
     = [\<lparr>Transaction.ref = 1, Transaction.time = 2, data = ''bar''\<rparr>] \<and>
   batched_getSeqRangeTransactions 2 (Some 5) readme_committed
     = batched_getSeqRangeTransactions 2 None readme_committed \<and>
   batched_getSeqRangeTransactions 3 (Some 5) readme_committed = (readme_committed, [], Inr []) \<and>
   simple_getSeqRangeTransactions 0 (Some 2) readme_simple
     = (readme_simple, [], Inl INVALID_SEQUENCE_ID_MESSAGE) \<and>
   simple_getSeqRangeTransactions 2 (Some 5) readme_simple
     = (readme_simple, [],
        Inr (entries_in_id_range_spec (MemorySimpleTransactionLog.transactions readme_simple)
               2 (Some 5))) \<and>
   simple_getSeqRangeTransactions 3 (Some 5) readme_simple = (readme_simple, [], Inr [])"
proof -
  have ob: "MemoryBatchedTransactionLog.open readme_committed"
    and os: "MemorySimpleTransactionLog.open readme_simple"
    by (simp_all add: readme_committed_eq readme_simple_eq)
  have lb: "length (MemoryBatchedTransactionLog.transactions readme_committed) = 2"
    and ls: "length (MemorySimpleTransactionLog.transactions readme_simple) = 2"
    by (simp_all add: readme_committed_eq readme_simple_eq)
  have e: "entries_in_id_range_spec (MemoryBatchedTransactionLog.transactions readme_committed) 2 (Some 5)
     = [\<lparr>Transaction.ref = 1, Transaction.time = 2, data = ''bar''\<rparr>]"
    by (simp add: readme_committed_eq entries_in_id_range_spec_def enumerate_eq_zip)
  note b0 = getSeqRangeTransactions_id_range
    [of readme_committed 0 "Some 2" 5 readme_simple, THEN conjunct1, THEN mp, OF ob]
  note b2 = getSeqRangeTransactions_id_range
    [of readme_committed 2 "Some 5" 5 readme_simple, THEN conjunct1, THEN mp, OF ob]
  note b3 = getSeqRangeTransactions_id_range
    [of readme_committed 3 "Some 5" 5 readme_simple, THEN conjunct1, THEN mp, OF ob]
  note s0 = getSeqRangeTransactions_id_range
    [of readme_committed 0 "Some 2" 5 readme_simple, THEN conjunct2, THEN mp, OF os]
  note s2 = getSeqRangeTransactions_id_range
    [of readme_committed 2 "Some 5" 5 readme_simple, THEN conjunct2, THEN mp, OF os]
  note s3 = getSeqRangeTransactions_id_range
    [of readme_committed 3 "Some 5" 5 readme_simple, THEN conjunct2, THEN mp, OF os]
  have 1: "batched_getSeqRangeTransactions 0 (Some 2) readme_committed
     = (readme_committed, [], Inl INVALID_SEQUENCE_ID_MESSAGE)"
    by (rule b0 [THEN conjunct1, THEN mp]) simp
  have 2: "batched_getSeqRangeTransactions 2 (Some 5) readme_committed
     = (readme_committed, [],
        Inr (entries_in_id_range_spec (MemoryBatchedTransactionLog.transactions readme_committed)
               2 (Some 5)))"
    by (rule b2 [THEN conjunct2, THEN conjunct1, THEN mp]) simp
  have 3: "batched_getSeqRangeTransactions 2 (Some 5) readme_committed
     = batched_getSeqRangeTransactions 2 None readme_committed"
    by (rule b2 [THEN conjunct2, THEN conjunct2, THEN conjunct2, THEN conjunct1, THEN mp])
       (simp add: lb)
  have 4: "batched_getSeqRangeTransactions 3 (Some 5) readme_committed
     = (readme_committed, [], Inr [])"
    by (rule b3 [THEN conjunct2, THEN conjunct2, THEN conjunct2, THEN conjunct2, THEN mp])
       (simp add: lb)
  have 5: "simple_getSeqRangeTransactions 0 (Some 2) readme_simple
     = (readme_simple, [], Inl INVALID_SEQUENCE_ID_MESSAGE)"
    by (rule s0 [THEN conjunct1, THEN mp]) simp
  have 6: "simple_getSeqRangeTransactions 2 (Some 5) readme_simple
     = (readme_simple, [],
        Inr (entries_in_id_range_spec (MemorySimpleTransactionLog.transactions readme_simple)
               2 (Some 5)))"
    by (rule s2 [THEN conjunct2, THEN conjunct1, THEN mp]) simp
  have 7: "simple_getSeqRangeTransactions 3 (Some 5) readme_simple
     = (readme_simple, [], Inr [])"
    by (rule s3 [THEN conjunct2, THEN conjunct2, THEN conjunct2, THEN conjunct2, THEN mp])
       (simp add: ls)
  from ob os e 1 2 3 4 5 6 7 show ?thesis by - (intro conjI, assumption+)
qed

text \<open>
  C4 as first stated fails at \<open>finishId = 0\<close>: no identifier lies between 1 and 0, and
  the lookup returns both transactions of the example.
\<close>

theorem getSeqRangeTransactions_finishId_zero_counterexample:
  "MemoryBatchedTransactionLog.open readme_committed \<and>
   batched_getSeqRangeTransactions 1 (Some 0) readme_committed
     = (readme_committed, [],
        Inr [\<lparr>Transaction.ref = 0, Transaction.time = 1, data = ''foo''\<rparr>,
             \<lparr>Transaction.ref = 1, Transaction.time = 2, data = ''bar''\<rparr>]) \<and>
   entries_in_id_range_spec (MemoryBatchedTransactionLog.transactions readme_committed) 1 (Some 0)
     = [] \<and>
   batched_getSeqRangeTransactions 1 (Some 0) readme_committed
     \<noteq> (readme_committed, [],
         Inr (entries_in_id_range_spec
                (MemoryBatchedTransactionLog.transactions readme_committed) 1 (Some 0)))"
  by (simp add: readme_committed_eq batched_getSeqRangeTransactions_def truthy_def slice_def
      entries_in_id_range_spec_def enumerate_eq_zip)

text \<open>
  A negative \<open>finishId\<close> reaches \<^verbatim>\<open>slice\<close> as it is and counts from the end.
\<close>

lemma getSeqRangeTransactions_negative_finishId:
  "batched_getSeqRangeTransactions 1 (Some (- 1)) readme_committed
     = (readme_committed, [], Inr [\<lparr>Transaction.ref = 0, Transaction.time = 1, data = ''foo''\<rparr>])"
  by (simp add: readme_committed_eq batched_getSeqRangeTransactions_def truthy_def slice_def)

subsection \<open>Clearing\<close>

lemma batched_appends:
  "MemoryBatchedTransactionLog.open u \<Longrightarrow>
   MemoryBatchedTransactionLog.open (fold (\<lambda>(tm, d). perform (Call_append tm d)) entries u) \<and>
   commits (fold (\<lambda>(tm, d). perform (Call_append tm d)) entries u) = commits u \<and>
   MemoryBatchedTransactionLog.transactions (fold (\<lambda>(tm, d). perform (Call_append tm d)) entries u)
     = MemoryBatchedTransactionLog.transactions u \<and>
   map data (buffer (fold (\<lambda>(tm, d). perform (Call_append tm d)) entries u))
     = map data (buffer u) @ map snd entries"
proof (induction entries arbitrary: u)
  case Nil
  then show ?case by simp
next
  case (Cons e entries)
  obtain tm d where e: "e = (tm, d)" by (cases e)
  let ?u = "perform (Call_append tm d) u"
  from Cons.prems have u: "MemoryBatchedTransactionLog.open ?u" "commits ?u = commits u"
    "MemoryBatchedTransactionLog.transactions ?u = MemoryBatchedTransactionLog.transactions u"
    "map data (buffer ?u) = map data (buffer u) @ [d]"
    by (simp_all add: batched_append_def Let_def)
  from Cons.IH [OF u(1)] u e show ?case by simp
qed

lemma simple_appends:
  "MemorySimpleTransactionLog.open u \<Longrightarrow>
   map data (MemorySimpleTransactionLog.transactions
               (fold (\<lambda>(tm, d) v. fst (simple_append tm d v)) entries u))
     = map data (MemorySimpleTransactionLog.transactions u) @ map snd entries \<and>
   MemorySimpleTransactionLog.open (fold (\<lambda>(tm, d) v. fst (simple_append tm d v)) entries u)"
proof (induction entries arbitrary: u)
  case Nil
  then show ?case by simp
next
  case (Cons e entries)
  obtain tm d where e: "e = (tm, d)" by (cases e)
  let ?u = "fst (simple_append tm d u)"
  from Cons.prems have u: "MemorySimpleTransactionLog.open ?u"
    "map data (MemorySimpleTransactionLog.transactions ?u)
       = map data (MemorySimpleTransactionLog.transactions u) @ [d]"
    by (simp_all add: simple_append_def Let_def)
  from Cons.IH [OF u(1)] u e show ?case by simp
qed

lemma first_commit:
  assumes "MemoryBatchedTransactionLog.open u" and "commits u = []"
    and "MemoryBatchedTransactionLog.transactions u = []" and "buffer u \<noteq> []"
  shows "map Commit.transactions (commits (perform (Call_commit now) u))
           = [ [1 .. int (length (buffer u))] ] \<and>
         MemoryBatchedTransactionLog.transactions (perform (Call_commit now) u) = buffer u \<and>
         (\<exists>infos. batched_getSeqRangeCommits 1 None (perform (Call_commit now) u)
                     = (perform (Call_commit now) u, [], Inr infos) \<and>
                   map CommitInfo.id infos = [1])"
  using assms enumerate_ids [of 0 "buffer u"]
  by (simp add: batched_commit_def Let_def batched_getSeqRangeCommits_def truthy_def
      slice_def commitInfo_def indexOf_def)

lemma clear_then_reopen:
  assumes closed: "\<not> MemoryBatchedTransactionLog.open (s :: 'a MemoryBatchedTransactionLog)"
  shows "\<exists>s' hooks.
         batched_clear s = (s', hooks, Inr ()) \<and>
         commits s' = [] \<and> MemoryBatchedTransactionLog.transactions s' = [] \<and> buffer s' = [] \<and>
         \<not> MemoryBatchedTransactionLog.open s' \<and>
         batched_countCommits (perform Call_open s') = (perform Call_open s', [], Inr 0) \<and>
         batched_countTransactions (perform Call_open s') = (perform Call_open s', [], Inr 0) \<and>
         (entries \<noteq> [] \<longrightarrow>
            (\<exists>s''. s'' = perform (Call_commit now)
                           (fold (\<lambda>(tm, d). perform (Call_append tm d)) entries
                              (perform Call_open s')) \<and>
                   map Commit.transactions (commits s'') = [ [1 .. int (length entries)] ] \<and>
                   map data (MemoryBatchedTransactionLog.transactions s'') = map snd entries \<and>
                   (\<exists>infos. batched_getSeqRangeCommits 1 None s'' = (s'', [], Inr infos) \<and>
                             map CommitInfo.id infos = [1])))"
proof -
  let ?s' = "s\<lparr>commits := [], MemoryBatchedTransactionLog.transactions := [], buffer := []\<rparr>"
  let ?o = "perform Call_open ?s'"
  let ?b = "fold (\<lambda>(tm, d). perform (Call_append tm d)) entries ?o"
  from closed have o: "MemoryBatchedTransactionLog.open ?o" "commits ?o = []"
    "MemoryBatchedTransactionLog.transactions ?o = []" "buffer ?o = []"
    by (simp_all add: batched_open_def)
  from batched_appends [OF o(1), of entries] o
  have b: "MemoryBatchedTransactionLog.open ?b" "commits ?b = []"
    "MemoryBatchedTransactionLog.transactions ?b = []" "map data (buffer ?b) = map snd entries"
    by simp_all
  from arg_cong [OF b(4), of length] have len: "length (buffer ?b) = length entries"
    by (simp only: length_map)
  have after: "map Commit.transactions (commits (perform (Call_commit now) ?b))
                 = [ [1 .. int (length entries)] ] \<and>
       map data (MemoryBatchedTransactionLog.transactions (perform (Call_commit now) ?b))
         = map snd entries \<and>
       (\<exists>infos. batched_getSeqRangeCommits 1 None (perform (Call_commit now) ?b)
                   = (perform (Call_commit now) ?b, [], Inr infos) \<and>
                 map CommitInfo.id infos = [1])"
    if "entries \<noteq> []"
  proof -
    let ?c = "perform (Call_commit now) ?b"
    from that have "length entries \<noteq> 0" by simp
    then have "length (buffer ?b) \<noteq> 0" by (simp only: len simp_thms)
    then have "buffer ?b \<noteq> []" by (simp only: length_0_conv not_False_eq_True)
    note fc = first_commit [OF b(1,2,3) this, of now]
    from fc have "map Commit.transactions (commits ?c) = [ [1 .. int (length (buffer ?b))] ]"
      by (rule conjunct1)
    then have ids: "map Commit.transactions (commits ?c) = [ [1 .. int (length entries)] ]"
      by (simp only: len)
    from fc have "MemoryBatchedTransactionLog.transactions ?c = buffer ?b"
      by (rule conjunct1 [OF conjunct2])
    then have txns: "map data (MemoryBatchedTransactionLog.transactions ?c) = map snd entries"
      by (simp only: b(4))
    from fc have "\<exists>infos. batched_getSeqRangeCommits 1 None ?c = (?c, [], Inr infos) \<and>
                 map CommitInfo.id infos = [1]"
      by (rule conjunct2 [OF conjunct2])
    with ids txns show ?thesis by - (intro conjI, assumption+)
  qed
  let ?hooks = "optional_call (onclear (MemoryBatchedTransactionLog.callbacks s)) Hook_onclear"
  show ?thesis
  proof (rule exI [of _ ?s'], rule exI [of _ ?hooks], intro conjI impI)
    from closed show "batched_clear s = (?s', ?hooks, Inr ())"
      by (simp add: batched_clear_def)
    show "commits ?s' = []" "MemoryBatchedTransactionLog.transactions ?s' = []" "buffer ?s' = []"
      by simp_all
    from closed show "\<not> MemoryBatchedTransactionLog.open ?s'" by simp
    from o show "batched_countCommits ?o = (?o, [], Inr 0)"
      by (simp add: batched_countCommits_def)
    from o show "batched_countTransactions ?o = (?o, [], Inr 0)"
      by (simp add: batched_countTransactions_def)
    assume "entries \<noteq> []"
    from after [OF this]
    show "\<exists>s''. s'' = perform (Call_commit now) ?b \<and>
                map Commit.transactions (commits s'') = [ [1 .. int (length entries)] ] \<and>
                map data (MemoryBatchedTransactionLog.transactions s'') = map snd entries \<and>
                (\<exists>infos. batched_getSeqRangeCommits 1 None s'' = (s'', [], Inr infos) \<and>
                          map CommitInfo.id infos = [1])"
      by - (rule exI [of _ "perform (Call_commit now) ?b"], rule conjI, rule refl, assumption)
  qed
qed

lemma simple_clear_then_reopen:
  assumes closed: "\<not> MemorySimpleTransactionLog.open (t :: 'a MemorySimpleTransactionLog)"
  shows "\<exists>t' hooks.
         simple_clear t = (t', hooks, Inr ()) \<and>
         MemorySimpleTransactionLog.transactions t' = [] \<and>
         \<not> MemorySimpleTransactionLog.open t' \<and>
         simple_countTransactions (fst (simple_open t')) = (fst (simple_open t'), [], Inr 0) \<and>
         map data (MemorySimpleTransactionLog.transactions
                     (fold (\<lambda>(tm, d) v. fst (simple_append tm d v)) entries (fst (simple_open t'))))
           = map snd entries"
proof -
  let ?t' = "t\<lparr>MemorySimpleTransactionLog.transactions := []\<rparr>"
  let ?o = "fst (simple_open ?t')"
  let ?hooks = "optional_call (onclear (MemorySimpleTransactionLog.callbacks t)) Hook_onclear"
  from closed have o: "MemorySimpleTransactionLog.open ?o"
    "MemorySimpleTransactionLog.transactions ?o = []"
    by (simp_all add: simple_open_def)
  show ?thesis
  proof (rule exI [of _ ?t'], rule exI [of _ ?hooks], intro conjI)
    from closed show "simple_clear t = (?t', ?hooks, Inr ())" by (simp add: simple_clear_def)
    show "MemorySimpleTransactionLog.transactions ?t' = []" by simp
    from closed show "\<not> MemorySimpleTransactionLog.open ?t'" by simp
    from o show "simple_countTransactions ?o = (?o, [], Inr 0)"
      by (simp add: simple_countTransactions_def)
    from simple_appends [OF o(1), of entries]
    have "map data (MemorySimpleTransactionLog.transactions
               (fold (\<lambda>(tm, d) v. fst (simple_append tm d v)) entries ?o))
     = map data (MemorySimpleTransactionLog.transactions ?o) @ map snd entries" by (rule conjunct1)
    then show "map data (MemorySimpleTransactionLog.transactions
                     (fold (\<lambda>(tm, d) v. fst (simple_append tm d v)) entries ?o))
           = map snd entries" by (simp only: o(2) list.map append_Nil)
  qed
qed

text \<open>
  C8. On an open log \<open>clear\<close> throws and leaves the state as it was. On a closed log it
  returns with the collections empty and the log still closed; once the log is opened
  again both counts are 0, and after appending \<open>entries\<close> and committing, the log holds one
  commit, with identifier 1, listing the transaction identifiers from 1 to the number of
  entries. The simple log likewise: its transactions after reopening and appending are
  the appended entries, numbered from 1.
\<close>

theorem clear_resets:
  "(MemoryBatchedTransactionLog.open s \<longrightarrow>
      batched_clear s = (s, [], Inl LOG_OPEN_CANNOT_CLEAR_MESSAGE)) \<and>
   (\<not> MemoryBatchedTransactionLog.open s \<longrightarrow>
      (\<exists>s' hooks.
         batched_clear s = (s', hooks, Inr ()) \<and>
         commits s' = [] \<and> MemoryBatchedTransactionLog.transactions s' = [] \<and> buffer s' = [] \<and>
         \<not> MemoryBatchedTransactionLog.open s' \<and>
         batched_countCommits (perform Call_open s') = (perform Call_open s', [], Inr 0) \<and>
         batched_countTransactions (perform Call_open s') = (perform Call_open s', [], Inr 0) \<and>
         (entries \<noteq> [] \<longrightarrow>
            (\<exists>s''. s'' = perform (Call_commit now)
                           (fold (\<lambda>(tm, d). perform (Call_append tm d)) entries
                              (perform Call_open s')) \<and>
                   map Commit.transactions (commits s'') = [ [1 .. int (length entries)] ] \<and>
                   map data (MemoryBatchedTransactionLog.transactions s'') = map snd entries \<and>
                   (\<exists>infos. batched_getSeqRangeCommits 1 None s'' = (s'', [], Inr infos) \<and>
                             map CommitInfo.id infos = [1]))))) \<and>
   (MemorySimpleTransactionLog.open t \<longrightarrow>
      simple_clear t = (t, [], Inl LOG_OPEN_CANNOT_CLEAR_MESSAGE)) \<and>
   (\<not> MemorySimpleTransactionLog.open t \<longrightarrow>
      (\<exists>t' hooks.
         simple_clear t = (t', hooks, Inr ()) \<and>
         MemorySimpleTransactionLog.transactions t' = [] \<and>
         \<not> MemorySimpleTransactionLog.open t' \<and>
         simple_countTransactions (fst (simple_open t')) = (fst (simple_open t'), [], Inr 0) \<and>
         map data (MemorySimpleTransactionLog.transactions
                     (fold (\<lambda>(tm, d) v. fst (simple_append tm d v)) entries (fst (simple_open t'))))
           = map snd entries))"
proof (intro conjI impI)
  assume "MemoryBatchedTransactionLog.open s"
  then show "batched_clear s = (s, [], Inl LOG_OPEN_CANNOT_CLEAR_MESSAGE)"
    by (simp add: batched_clear_def)
next
  assume "MemorySimpleTransactionLog.open t"
  then show "simple_clear t = (t, [], Inl LOG_OPEN_CANNOT_CLEAR_MESSAGE)"
    by (simp add: simple_clear_def)
next
  assume "\<not> MemoryBatchedTransactionLog.open s"
  then show "\<exists>s' hooks.
         batched_clear s = (s', hooks, Inr ()) \<and>
         commits s' = [] \<and> MemoryBatchedTransactionLog.transactions s' = [] \<and> buffer s' = [] \<and>
         \<not> MemoryBatchedTransactionLog.open s' \<and>
         batched_countCommits (perform Call_open s') = (perform Call_open s', [], Inr 0) \<and>
         batched_countTransactions (perform Call_open s') = (perform Call_open s', [], Inr 0) \<and>
         (entries \<noteq> [] \<longrightarrow>
            (\<exists>s''. s'' = perform (Call_commit now)
                           (fold (\<lambda>(tm, d). perform (Call_append tm d)) entries
                              (perform Call_open s')) \<and>
                   map Commit.transactions (commits s'') = [ [1 .. int (length entries)] ] \<and>
                   map data (MemoryBatchedTransactionLog.transactions s'') = map snd entries \<and>
                   (\<exists>infos. batched_getSeqRangeCommits 1 None s'' = (s'', [], Inr infos) \<and>
                             map CommitInfo.id infos = [1])))"
    by (rule clear_then_reopen)
next
  assume "\<not> MemorySimpleTransactionLog.open t"
  then show "\<exists>t' hooks.
         simple_clear t = (t', hooks, Inr ()) \<and>
         MemorySimpleTransactionLog.transactions t' = [] \<and>
         \<not> MemorySimpleTransactionLog.open t' \<and>
         simple_countTransactions (fst (simple_open t')) = (fst (simple_open t'), [], Inr 0) \<and>
         map data (MemorySimpleTransactionLog.transactions
                     (fold (\<lambda>(tm, d) v. fst (simple_append tm d v)) entries (fst (simple_open t'))))
           = map snd entries"
    by (rule simple_clear_then_reopen)
qed

theorem clear_resets_witness:
  "MemoryBatchedTransactionLog.open readme_committed \<and>
   batched_clear readme_committed = (readme_committed, [], Inl LOG_OPEN_CANNOT_CLEAR_MESSAGE) \<and>
   \<not> MemoryBatchedTransactionLog.open readme_closed \<and>
   (\<exists>s' hooks.
      batched_clear readme_closed = (s', hooks, Inr ()) \<and>
      commits s' = [] \<and> MemoryBatchedTransactionLog.transactions s' = [] \<and> buffer s' = [] \<and>
      \<not> MemoryBatchedTransactionLog.open s' \<and>
      batched_countCommits (perform Call_open s') = (perform Call_open s', [], Inr 0) \<and>
      batched_countTransactions (perform Call_open s') = (perform Call_open s', [], Inr 0) \<and>
      ([(5::real, ''baz'')] \<noteq> [] \<longrightarrow>
         (\<exists>s''. s'' = perform (Call_commit 6)
                        (fold (\<lambda>(tm, d). perform (Call_append tm d)) [(5, ''baz'')]
                           (perform Call_open s')) \<and>
                map Commit.transactions (commits s'') = [ [1 .. int (length [(5::real, ''baz'')])] ] \<and>
                map data (MemoryBatchedTransactionLog.transactions s'') = map snd [(5::real, ''baz'')] \<and>
                (\<exists>infos. batched_getSeqRangeCommits 1 None s'' = (s'', [], Inr infos) \<and>
                          map CommitInfo.id infos = [1])))) \<and>
   MemorySimpleTransactionLog.open readme_simple \<and>
   simple_clear readme_simple = (readme_simple, [], Inl LOG_OPEN_CANNOT_CLEAR_MESSAGE) \<and>
   \<not> MemorySimpleTransactionLog.open readme_simple_closed \<and>
   (\<exists>t' hooks.
      simple_clear readme_simple_closed = (t', hooks, Inr ()) \<and>
      MemorySimpleTransactionLog.transactions t' = [] \<and>
      \<not> MemorySimpleTransactionLog.open t' \<and>
      simple_countTransactions (fst (simple_open t')) = (fst (simple_open t'), [], Inr 0) \<and>
      map data (MemorySimpleTransactionLog.transactions
                  (fold (\<lambda>(tm, d) v. fst (simple_append tm d v)) [(5::real, ''baz'')]
                     (fst (simple_open t'))))
        = map snd [(5::real, ''baz'')])"
proof -
  have ob: "MemoryBatchedTransactionLog.open readme_committed"
    and cb: "\<not> MemoryBatchedTransactionLog.open readme_closed"
    and os: "MemorySimpleTransactionLog.open readme_simple"
    and cs: "\<not> MemorySimpleTransactionLog.open readme_simple_closed"
    by (simp_all add: readme_committed_eq readme_closed_eq readme_simple_eq readme_simple_closed_eq)
  note opened = clear_resets [of readme_committed "[(5, ''baz'')]" 6 readme_simple]
  note closed = clear_resets [of readme_closed "[(5, ''baz'')]" 6 readme_simple_closed]
  note 1 = opened [THEN conjunct1, THEN mp, OF ob]
  note 2 = closed [THEN conjunct2, THEN conjunct1, THEN mp, OF cb]
  note 3 = opened [THEN conjunct2, THEN conjunct2, THEN conjunct1, THEN mp, OF os]
  note 4 = closed [THEN conjunct2, THEN conjunct2, THEN conjunct2, THEN mp, OF cs]
  from ob 1 cb 2 os 3 cs 4 show ?thesis by - (intro conjI, assumption+)
qed

end
